theory Spec2Isabelle
  imports Complex_Main "HOL-Library.Sublist"
begin

section \<open>Strings\<close>

text \<open>
  A JavaScript string is modelled as a \<^typ>\<open>string\<close>. Every delimiter the source searches
  for is ASCII, so the positions found do not depend on how other characters are encoded.
\<close>

text \<open>\<^verbatim>\<open>String.prototype.includes\<close>: does \<open>pat\<close> occur in \<open>s\<close> as a contiguous run.\<close>

fun str_includes :: "string \<Rightarrow> string \<Rightarrow> bool" where
  "str_includes [] pat = (pat = [])"
| "str_includes (c # cs) pat = (prefix pat (c # cs) \<or> str_includes cs pat)"

section \<open>Errors\<close>

text \<open>
  What a \<^verbatim>\<open>catch\<close> clause receives. The value is untyped in the source; the model keeps
  the three properties \<^verbatim>\<open>retryWithBackoff\<close> reads, each of them optional, and the value
  \<^verbatim>\<open>undefined\<close> (the initial \<^verbatim>\<open>lastError\<close>).
\<close>

datatype error =
    Undefined
  | Error (status: "int option") (code: "string option") (message: "string option")

text \<open>A \<^verbatim>\<open>TypeError\<close> or \<^verbatim>\<open>SyntaxError\<close> raised by the runtime carries a message only.\<close>

definition TypeError :: "string \<Rightarrow> error" where
  "TypeError m = Error None None (Some m)"

text \<open>
  The test of line 38:
  \<^verbatim>\<open>error?.status === 429 || error?.code === 'rate_limit_exceeded' || error?.message?.includes('rate limit')\<close>
\<close>

fun isRateLimit :: "error \<Rightarrow> bool" where
  "isRateLimit Undefined = False"
| "isRateLimit (Error st cd msg) =
     (st = Some 429 \<or> cd = Some ''rate_limit_exceeded'' \<or>
      (case msg of None \<Rightarrow> False | Some m \<Rightarrow> str_includes m ''rate limit''))"

section \<open>retryWithBackoff\<close>

text \<open>
  The operation \<^verbatim>\<open>fn\<close> is called once per loop iteration, so its behaviour is given by the
  outcome of each call in turn: \<open>fn i\<close> is how the call made in iteration \<open>i\<close> settles,
  \<open>Inr v\<close> for a value and \<open>Inl e\<close> for a rejection. What the function does besides
  returning is recorded next to the result: the number of calls of \<^verbatim>\<open>fn\<close> and the delays
  handed to \<^verbatim>\<open>setTimeout\<close>, in order. The warning printed per retry is not modelled.

  \<^verbatim>\<open>maxRetries\<close> and \<^verbatim>\<open>baseDelay\<close> are integers, and the delays are computed exactly; the loop
  counter \<^verbatim>\<open>attempt\<close> starts at 0 and is also the number of calls made so far. \<^verbatim>\<open>lastError\<close> is
  \<^verbatim>\<open>undefined\<close> until the first rejection.
\<close>

record 'a retried =
  result :: "error + 'a"
  calls :: nat
  waits :: "int list"

function retry_loop ::
  "(nat \<Rightarrow> error + 'a) \<Rightarrow> int \<Rightarrow> int \<Rightarrow> nat \<Rightarrow> error \<Rightarrow> int list \<Rightarrow> 'a retried" where
  "retry_loop fn maxRetries baseDelay attempt lastError ws =
     (if int attempt \<le> maxRetries then
        (case fn attempt of
           Inr v \<Rightarrow> \<lparr>result = Inr v, calls = attempt + 1, waits = ws\<rparr>
         | Inl e \<Rightarrow>
             if isRateLimit e \<and> int attempt < maxRetries
             then retry_loop fn maxRetries baseDelay (attempt + 1) e
                    (ws @ [baseDelay * 2 ^ attempt])
             else \<lparr>result = Inl e, calls = attempt + 1, waits = ws\<rparr>)
      else \<lparr>result = Inl lastError, calls = attempt, waits = ws\<rparr>)"
  by pat_completeness auto
termination
  by (relation "measure (\<lambda>(fn, maxRetries, baseDelay, attempt, lastError, ws).
        nat (maxRetries + 1 - int attempt))") auto

declare retry_loop.simps [simp del]

definition retryWithBackoff :: "(nat \<Rightarrow> error + 'a) \<Rightarrow> int \<Rightarrow> int \<Rightarrow> 'a retried" where
  "retryWithBackoff fn maxRetries baseDelay = retry_loop fn maxRetries baseDelay 0 Undefined []"

text \<open>The call with both optional parameters left out.\<close>

definition retryWithBackoff_default :: "(nat \<Rightarrow> error + 'a) \<Rightarrow> 'a retried" where
  "retryWithBackoff_default fn = retryWithBackoff fn 5 2000"

text \<open>The first \<open>k\<close> calls are all rejected with a rate-limit error.\<close>

primrec rate_limited_upto :: "(nat \<Rightarrow> error + 'a) \<Rightarrow> nat \<Rightarrow> bool" where
  "rate_limited_upto fn 0 = True"
| "rate_limited_upto fn (Suc k) =
     (rate_limited_upto fn k \<and> (case fn k of Inl e \<Rightarrow> isRateLimit e | Inr v \<Rightarrow> False))"

text \<open>The delays of the first \<open>k\<close> retries: \<open>baseDelay * 2 ^ i\<close> for \<open>i = 0, ..., k - 1\<close>.\<close>

definition backoff_delays :: "int \<Rightarrow> nat \<Rightarrow> int list" where
  "backoff_delays baseDelay k = map (\<lambda>i. baseDelay * 2 ^ i) [0..<k]"

subsection \<open>Sample operations\<close>

text \<open>
  Three rate-limit rejections (one by status, one by code, one by message) and then a value,
  with the default parameters: the value is returned after waits of 2, 4 and 8 seconds.
\<close>

definition three_rate_limits :: "nat \<Rightarrow> error + string" where
  "three_rate_limits i =
     (if i = 0 then Inl (Error (Some 429) None None)
      else if i = 1 then Inl (Error None (Some ''rate_limit_exceeded'') None)
      else if i = 2 then Inl (Error None None (Some ''Provider rate limit reached''))
      else Inr ''done'')"

text \<open>
  An operation that is always rejected with status 429, and one that is rejected with
  status 500 at its first call.
\<close>

definition always_429 :: "nat \<Rightarrow> error + string" where
  "always_429 i = Inl (Error (Some 429) None (Some ''Too Many Requests''))"

definition server_error_first :: "nat \<Rightarrow> error + string" where
  "server_error_first i =
     (if i = 0 then Inl (Error (Some 500) None (Some ''Internal Server Error''))
      else Inr ''late'')"

section \<open>cleanJson\<close>

text \<open>
  The three literals of the two regular expressions of line 19,
  \<^verbatim>\<open>/```json\n([\s\S]*?)\n```/\<close> and \<^verbatim>\<open>/```([\s\S]*?)```/\<close>.
\<close>

definition fence :: string where
  "fence = ''```''"

definition open_json :: string where
  "open_json = ''```json\<newline>''"

definition close_json :: string where
  "close_json = ''\<newline>```''"

text \<open>
  Both expressions have the shape: an opening literal, the lazy group \<^verbatim>\<open>([\s\S]*?)\<close>, which
  matches any characters, line breaks included, and a closing literal. \<^verbatim>\<open>String.prototype.match\<close>
  with an expression without the \<^verbatim>\<open>g\<close> flag returns the leftmost match or \<^verbatim>\<open>null\<close> (\<open>None\<close>);
  element 1 of the match is the text of the group, the only part the source reads.

  \<open>lazy_upto cl s\<close>: the lazy group followed by the closing literal, tried at the start of
  \<open>s\<close>. The group first takes no character and grows by one character each time the closing
  literal does not follow; the result is the text of the group.
\<close>

fun lazy_upto :: "string \<Rightarrow> string \<Rightarrow> string option" where
  "lazy_upto cl [] = (if cl = [] then Some [] else None)"
| "lazy_upto cl (x # xs) =
     (if prefix cl (x # xs) then Some [] else map_option ((#) x) (lazy_upto cl xs))"

text \<open>The whole expression tried at the start of \<open>s\<close>.\<close>

definition match_at :: "string \<Rightarrow> string \<Rightarrow> string \<Rightarrow> string option" where
  "match_at op cl s = (if prefix op s then lazy_upto cl (drop (length op) s) else None)"

text \<open>
  The start positions are tried from left to right; a position where the expression does not
  match (the opening literal is absent, or no closing literal follows it) is given up for
  the next one.
\<close>

fun regex_match :: "string \<Rightarrow> string \<Rightarrow> string \<Rightarrow> string option" where
  "regex_match op cl [] = match_at op cl []"
| "regex_match op cl (x # xs) =
     (case match_at op cl (x # xs) of Some c \<Rightarrow> Some c | None \<Rightarrow> regex_match op cl xs)"

text \<open>
  \<^verbatim>\<open>text.match(/```json\n([\s\S]*?)\n```/) || text.match(/```([\s\S]*?)```/)\<close>, then
  \<^verbatim>\<open>match ? match[1] : text\<close>. A match is an array and so truthy, also when its group is empty.
\<close>

definition cleanJson :: "string \<Rightarrow> string" where
  "cleanJson text =
     (case regex_match open_json close_json text of
        Some c \<Rightarrow> c
      | None \<Rightarrow> (case regex_match fence fence text of Some c \<Rightarrow> c | None \<Rightarrow> text))"


subsection \<open>Notions used to state the properties\<close>

text \<open>
  \<open>starts_first pat p\<close>: in a string \<open>p @ pat @ r\<close>, no occurrence of \<open>pat\<close> starts inside \<open>p\<close>,
  so the occurrence after \<open>p\<close> is the leftmost one. (An occurrence that starts inside \<open>p\<close>
  lies within \<open>p\<close> and the first \<open>length pat - 1\<close> characters after it.)
\<close>

definition starts_first :: "string \<Rightarrow> string \<Rightarrow> bool" where
  "starts_first pat p = (\<not> str_includes (p @ butlast pat) pat)"

text \<open>
  The extractor as the specification words it, to be compared with \<open>cleanJson\<close>. Its first
  rule is the one of the source (the first test vector of the specification fixes the line
  breaks as part of the fences). Its second rule looks at the fenced blocks, the text between
  the first and the second fence, the third and the fourth, and so on, and takes the first
  one without a language tag, a block being tagged when a letter follows its opening fence
  immediately.
\<close>

definition language_tagged :: "string \<Rightarrow> bool" where
  "language_tagged c =
     (case c of [] \<Rightarrow> False
      | x # xs \<Rightarrow> x \<in> set ''abcdefghijklmnopqrstuvwxyzABCDEFGHIJKLMNOPQRSTUVWXYZ'')"

function fenced_blocks :: "string \<Rightarrow> string list" where
  "fenced_blocks s =
     (case lazy_upto fence s of
        None \<Rightarrow> []
      | Some p \<Rightarrow>
          (case lazy_upto fence (drop (length p + 3) s) of
             None \<Rightarrow> []
           | Some c \<Rightarrow> c # fenced_blocks (drop (length c + 3) (drop (length p + 3) s))))"
  by pat_completeness auto
termination
proof (relation "measure length")
  show "wf (measure length)" by simp
next
  fix s :: string and p c :: string
  assume "lazy_upto fence s = Some p"
  then have "s \<noteq> []" by (auto simp: fence_def)
  then show "(drop (length c + 3) (drop (length p + 3) s), s) \<in> measure length"
    by (cases s) simp_all
qed

declare fenced_blocks.simps [simp del]

definition cleanJson_spec :: "string \<Rightarrow> string" where
  "cleanJson_spec text =
     (case regex_match open_json close_json text of
        Some c \<Rightarrow> c
      | None \<Rightarrow>
          (case find (\<lambda>c. \<not> language_tagged c) (fenced_blocks text) of
             Some c \<Rightarrow> c
           | None \<Rightarrow> text))"

text \<open>
  A condition every JSON text meets (RFC 8259): a backtick occurs inside string literals
  only, since outside of them the grammar has only brackets, braces, commas, colons, white
  space, numbers and the three literal names; a string literal contains no raw line break;
  and the text does not end inside a string literal. \<open>json_lexical in_string s\<close> scans \<open>s\<close>
  starting inside (\<open>True\<close>) or outside (\<open>False\<close>) a string literal; a backslash inside a
  string literal escapes the next character.
\<close>

fun json_lexical :: "bool \<Rightarrow> string \<Rightarrow> bool" where
  "json_lexical in_string [] = (\<not> in_string)"
| "json_lexical False (x # xs) =
     (if x = CHR 0x22 then json_lexical True xs
      else x \<noteq> CHR 0x60 \<and> json_lexical False xs)"
| "json_lexical True (x # xs) =
     (if x = CHR 0x5C then (case xs of [] \<Rightarrow> False | y # ys \<Rightarrow> json_lexical True ys)
      else if x = CHR 0x22 then json_lexical False xs
      else x \<noteq> CHR 0x0A \<and> json_lexical True xs)"

section \<open>The call sites\<close>

text \<open>
  A JavaScript value as far as the call sites look at it: what \<^verbatim>\<open>JSON.parse\<close> returns
  (\<^verbatim>\<open>null\<close>, a boolean, a number, a string, an array, an object) and \<^verbatim>\<open>undefined\<close>, the value of
  a property that is not there. An object is the list of its properties; the first entry of
  a key is the one that counts.
\<close>

datatype jsval =
    JUndefined
  | JNull
  | JBool bool
  | JNum real
  | JStr string
  | JArr "jsval list"
  | JObj "(string \<times> jsval) list"

text \<open>
  Truthiness, as \<^verbatim>\<open>!!v\<close> and \<^verbatim>\<open>v || d\<close> test it: \<^verbatim>\<open>undefined\<close>, \<^verbatim>\<open>null\<close>, \<^verbatim>\<open>false\<close>, zero and the
  empty string are falsy, every array and object is truthy.
\<close>

fun truthy :: "jsval \<Rightarrow> bool" where
  "truthy JUndefined = False"
| "truthy JNull = False"
| "truthy (JBool b) = b"
| "truthy (JNum n) = (n \<noteq> 0)"
| "truthy (JStr s) = (s \<noteq> [])"
| "truthy (JArr vs) = True"
| "truthy (JObj kvs) = True"

text \<open>\<^verbatim>\<open>a || b\<close> on values.\<close>

definition js_or :: "jsval \<Rightarrow> jsval \<Rightarrow> jsval" where
  "js_or a b = (if truthy a then a else b)"

text \<open>\<^verbatim>\<open>s || d\<close> where \<open>s\<close> is a string or absent: the empty string is falsy.\<close>

definition or_default :: "string option \<Rightarrow> string \<Rightarrow> string" where
  "or_default v d = (case v of None \<Rightarrow> d | Some s \<Rightarrow> if s = [] then d else s)"

text \<open>
  The property read \<^verbatim>\<open>data.k\<close>, for the four keys the source reads (\<^verbatim>\<open>isValid\<close>,
  \<^verbatim>\<open>budgetVerdict\<close>, \<^verbatim>\<open>issues\<close>, \<^verbatim>\<open>suggestions\<close>): on \<^verbatim>\<open>null\<close> and \<^verbatim>\<open>undefined\<close> it raises a
  \<^verbatim>\<open>TypeError\<close>; on an object it is the property's value, or \<^verbatim>\<open>undefined\<close> when the object has no
  such property; booleans, numbers, strings and arrays have no property of these names.
\<close>

fun get_prop :: "jsval \<Rightarrow> string \<Rightarrow> error + jsval" where
  "get_prop JUndefined k = Inl (TypeError ''Cannot read properties of undefined'')"
| "get_prop JNull k = Inl (TypeError ''Cannot read properties of null'')"
| "get_prop (JObj kvs) k = Inr (case map_of kvs k of None \<Rightarrow> JUndefined | Some v \<Rightarrow> v)"
| "get_prop v k = Inr JUndefined"

subsection \<open>The completion endpoint\<close>

text \<open>A message of a request: the object literal \<^verbatim>\<open>{ role, content }\<close>.\<close>

datatype chat_message = ChatMessage (msg_role: string) (msg_content: string)

text \<open>
  The argument of \<^verbatim>\<open>client.chat.completions.create\<close>; \<^verbatim>\<open>response_format\<close> holds the \<^verbatim>\<open>type\<close> of
  the format object, and a field the call leaves out is \<open>None\<close>.
\<close>

record request =
  model :: string
  messages :: "chat_message list"
  response_format :: "string option"
  stream :: "bool option"

definition MODEL :: string where
  "MODEL = ''mistralai/mistral-7b-instruct:free''"

text \<open>
  The response, as far as \<^verbatim>\<open>response.choices?.[0]?.message?.content\<close> reads it: the list of
  choices may be absent, a choice may lack its message, and the content of a message may be
  \<^verbatim>\<open>null\<close>.
\<close>

datatype reply = Reply (reply_content: "string option")

datatype choice = Choice (choice_message: "reply option")

datatype response = Response (choices: "choice list option")

definition first_content :: "response \<Rightarrow> string option" where
  "first_content r =
     (case choices r of
        None \<Rightarrow> None
      | Some [] \<Rightarrow> None
      | Some (c # cs) \<Rightarrow>
          (case choice_message c of None \<Rightarrow> None | Some m \<Rightarrow> reply_content m))"

text \<open>
  The endpoint is outside of the program: \<open>create i req\<close> is how the request \<open>req\<close> settles
  when it is request number \<open>i\<close> (from 0) of one operation. \<^verbatim>\<open>JSON.parse\<close> is a parameter as
  well: \<open>parse s\<close> is the parsed value, or the \<^verbatim>\<open>SyntaxError\<close> it raises.
\<close>

type_synonym provider = "nat \<Rightarrow> request \<Rightarrow> error + response"

type_synonym parser = "string \<Rightarrow> error + jsval"

text \<open>
  Lines 108 to 118 and 193 to 202: the request is sent through \<^verbatim>\<open>retryWithBackoff\<close> with its
  default parameters (\<open>create_with_retry\<close>), the content of the first choice (or \<^verbatim>\<open>"{}"\<close>) is
  cleaned and parsed.
\<close>

text \<open>The operation handed to \<^verbatim>\<open>retryWithBackoff\<close>: each call of it sends \<open>req\<close> once more.\<close>

definition attempts :: "provider \<Rightarrow> request \<Rightarrow> nat \<Rightarrow> error + response" where
  "attempts create req i = create i req"

definition create_with_retry :: "provider \<Rightarrow> request \<Rightarrow> response retried" where
  "create_with_retry create req = retryWithBackoff_default (attempts create req)"

definition parsed_reply :: "provider \<Rightarrow> parser \<Rightarrow> request \<Rightarrow> error + jsval" where
  "parsed_reply create parse req =
     (case result (create_with_retry create req) of
        Inl e \<Rightarrow> Inl e
      | Inr response \<Rightarrow> parse (cleanJson (or_default (first_content response) ''{}'')))"

subsection \<open>checkProjectFeasibility\<close>

text \<open>
  The result object. Its last three fields hold whatever value the reply has there: the
  source does not check them.
\<close>

record FeasibilityResult =
  isValid :: bool
  budgetVerdict :: jsval
  issues :: jsval
  suggestions :: jsval

text \<open>
  The prompt is the template literal of lines 58 to 106 filled with the fields of
  \<^verbatim>\<open>inputs\<close>; the functions below take the filled text.
\<close>

definition feasibility_request :: "string \<Rightarrow> request" where
  "feasibility_request prompt =
     \<lparr>model = MODEL, messages = [ChatMessage ''user'' prompt],
      response_format = Some ''json_object'', stream = Some False\<rparr>"

text \<open>The object literal of lines 120 to 125.\<close>

definition feasibility_of :: "jsval \<Rightarrow> error + FeasibilityResult" where
  "feasibility_of data =
     (case get_prop data ''isValid'' of Inl e \<Rightarrow> Inl e | Inr v \<Rightarrow>
      case get_prop data ''budgetVerdict'' of Inl e \<Rightarrow> Inl e | Inr b \<Rightarrow>
      case get_prop data ''issues'' of Inl e \<Rightarrow> Inl e | Inr i \<Rightarrow>
      case get_prop data ''suggestions'' of Inl e \<Rightarrow> Inl e | Inr s \<Rightarrow>
        Inr \<lparr>isValid = truthy v,
             budgetVerdict = js_or b (JStr ''Insufficient''),
             issues = js_or i (JArr []),
             suggestions = js_or s (JArr [])\<rparr>)"

text \<open>The body of the \<^verbatim>\<open>try\<close> block.\<close>

definition feasibility_try :: "provider \<Rightarrow> parser \<Rightarrow> string \<Rightarrow> error + FeasibilityResult" where
  "feasibility_try create parse prompt =
     (case parsed_reply create parse (feasibility_request prompt) of
        Inl e \<Rightarrow> Inl e
      | Inr data \<Rightarrow> feasibility_of data)"

text \<open>The object returned by the \<^verbatim>\<open>catch\<close> block.\<close>

definition fallback :: FeasibilityResult where
  "fallback =
     \<lparr>isValid = False,
      budgetVerdict = JStr ''Insufficient'',
      issues = JArr [JStr ''Service unavailable or parse error''],
      suggestions = JArr []\<rparr>"

text \<open>
  The function returns a promise: \<open>Inr\<close> when it is fulfilled, \<open>Inl\<close> when it is rejected.
\<close>

definition checkProjectFeasibility ::
  "provider \<Rightarrow> parser \<Rightarrow> string \<Rightarrow> error + FeasibilityResult" where
  "checkProjectFeasibility create parse prompt =
     (case feasibility_try create parse prompt of
        Inl error \<Rightarrow> Inr fallback
      | Inr r \<Rightarrow> Inr r)"

text \<open>The closed enumeration of the budget verdict.\<close>

definition verdicts :: "jsval set" where
  "verdicts = {JStr ''Realistic'', JStr ''Insufficient'', JStr ''Excessive''}"

subsection \<open>generateConstructionEstimate\<close>

definition estimate_request :: "string \<Rightarrow> request" where
  "estimate_request prompt =
     \<lparr>model = MODEL, messages = [ChatMessage ''user'' prompt],
      response_format = Some ''json_object'', stream = None\<rparr>"

text \<open>
  The parsed value is returned under the type assertion \<^verbatim>\<open>as EstimationResult\<close>, which does
  nothing when the program runs; the \<^verbatim>\<open>catch\<close> block throws the error it has caught.
\<close>

definition generateConstructionEstimate :: "provider \<Rightarrow> parser \<Rightarrow> string \<Rightarrow> error + jsval" where
  "generateConstructionEstimate create parse prompt =
     (case parsed_reply create parse (estimate_request prompt) of
        Inl error \<Rightarrow> Inl error
      | Inr v \<Rightarrow> Inr v)"

subsection \<open>sendChatMessage\<close>

text \<open>A part \<^verbatim>\<open>{ text }\<close> of a history entry (the field \<^verbatim>\<open>text\<close> is written \<open>text'\<close>).\<close>

record part =
  text' :: string

record history_entry =
  role :: string
  parts :: "part list"

text \<open>
  The callback of \<^verbatim>\<open>history.map\<close>. \<^verbatim>\<open>h.parts[0]\<close> is \<^verbatim>\<open>undefined\<close> when the list is empty, and reading
  \<^verbatim>\<open>text\<close> from it raises a \<^verbatim>\<open>TypeError\<close>.
\<close>

definition convert_entry :: "history_entry \<Rightarrow> error + chat_message" where
  "convert_entry h =
     (case parts h of
        [] \<Rightarrow> Inl (TypeError ''Cannot read properties of undefined'')
      | p # ps \<Rightarrow>
          Inr (ChatMessage (if role h = ''model'' then ''assistant'' else ''user'') (text' p)))"

text \<open>\<^verbatim>\<open>history.map\<close>: the entries are converted in order, and the first error ends the call.\<close>

fun convert_history :: "history_entry list \<Rightarrow> error + chat_message list" where
  "convert_history [] = Inr []"
| "convert_history (h # hs) =
     (case convert_entry h of
        Inl e \<Rightarrow> Inl e
      | Inr m \<Rightarrow> (case convert_history hs of Inl e \<Rightarrow> Inl e | Inr ms \<Rightarrow> Inr (m # ms)))"

text \<open>What a call of \<^verbatim>\<open>sendChatMessage\<close> does: how its promise settles, and the requests it has sent.\<close>

record chat_outcome =
  answer :: "error + string"
  requests :: "request list"

definition chat_request :: "chat_message list \<Rightarrow> request" where
  "chat_request ms = \<lparr>model = MODEL, messages = ms, response_format = None, stream = Some False\<rparr>"

definition sendChatMessage :: "provider \<Rightarrow> history_entry list \<Rightarrow> string \<Rightarrow> chat_outcome" where
  "sendChatMessage create history message' =
     (case convert_history history of
        Inl e \<Rightarrow> \<lparr>answer = Inl e, requests = []\<rparr>
      | Inr ms \<Rightarrow>
          (let req = chat_request (ms @ [ChatMessage ''user'' message']) in
           case create 0 req of
             Inl e \<Rightarrow> \<lparr>answer = Inl e, requests = [req]\<rparr>
           | Inr response \<Rightarrow>
               \<lparr>answer = Inr (or_default (first_content response) []), requests = [req]\<rparr>))"

subsection \<open>Sample providers and replies\<close>

definition SyntaxError :: "string \<Rightarrow> error" where
  "SyntaxError m = Error None None (Some m)"

definition answer_with :: "string \<Rightarrow> response" where
  "answer_with s = Response (Some [Choice (Some (Reply (Some s)))])"

text \<open>A provider that answers every request with the same content.\<close>

definition answers :: "string \<Rightarrow> provider" where
  "answers s i req = Inr (answer_with s)"

text \<open>A provider whose responses have no choices.\<close>

definition no_choices :: provider where
  "no_choices i req = Inr (Response None)"

definition rate_limit_error :: error where
  "rate_limit_error = Error (Some 429) None (Some ''Too Many Requests'')"

definition unavailable_error :: error where
  "unavailable_error = Error (Some 503) None (Some ''Service Unavailable'')"

text \<open>A provider that rejects the first request as rate limited and answers the next ones.\<close>

definition rate_limited_once :: provider where
  "rate_limited_once i req = (if i = 0 then Inl rate_limit_error else Inr (answer_with ''Hello''))"

text \<open>Providers that reject every request, as rate limited and as unavailable.\<close>

definition throttled :: provider where
  "throttled i req = Inl rate_limit_error"

definition unavailable :: provider where
  "unavailable i req = Inl unavailable_error"

text \<open>
  \<^verbatim>\<open>JSON.parse\<close> on the texts used in the examples of this theory: four JSON texts, and every
  other text taken as not being JSON (the examples apply it to \<^verbatim>\<open>Sorry, no estimate\<close> only).
\<close>

definition parse_sample :: parser where
  "parse_sample s =
     (if s = ''{}'' then Inr (JObj [])
      else if s = ''null'' then Inr JNull
      else if s = ''{\"budgetVerdict\":\"Maybe\"}''
        then Inr (JObj [(''budgetVerdict'', JStr ''Maybe'')])
      else if s = ''{\"isValid\":true,\"budgetVerdict\":\"Realistic\"}''
        then Inr (JObj [(''isValid'', JBool True), (''budgetVerdict'', JStr ''Realistic'')])
      else Inl (SyntaxError ''Unexpected token''))"

text \<open>A history of two turns, and one whose second entry has no part.\<close>

definition two_turns :: "history_entry list" where
  "two_turns =
     [\<lparr>role = ''user'', parts = [\<lparr>text' = ''How much for 1200 sq ft?''\<rparr>]\<rparr>,
      \<lparr>role = ''model'', parts = [\<lparr>text' = ''About 90000.''\<rparr>, \<lparr>text' = ''(estimate)''\<rparr>]\<rparr>]"

definition empty_parts :: "history_entry list" where
  "empty_parts =
     [\<lparr>role = ''user'', parts = [\<lparr>text' = ''Hi''\<rparr>]\<rparr>,
      \<lparr>role = ''model'', parts = []\<rparr>]"

section \<open>Properties of retryWithBackoff\<close>

lemma rate_limited_upto_iff:
  "rate_limited_upto fn k \<longleftrightarrow>
     (\<forall>i < k. case fn i of Inl e \<Rightarrow> isRateLimit e | Inr v \<Rightarrow> False)"
  by (induction k) (auto simp: less_Suc_eq)

lemma retry_loop_rate_limited:
  assumes "a \<le> k" and "int k \<le> maxRetries"
    and "\<forall>i. a \<le> i \<and> i < k \<longrightarrow> (case fn i of Inl e \<Rightarrow> isRateLimit e | Inr v \<Rightarrow> False)"
  shows "\<exists>l. retry_loop fn maxRetries baseDelay a l0 ws =
           retry_loop fn maxRetries baseDelay k l
             (ws @ map (\<lambda>i. baseDelay * 2 ^ i) [a..<k])
         \<and> (a = k \<longrightarrow> l = l0)
         \<and> (a < k \<longrightarrow> fn (k - 1) = Inl l)"
  using assms
proof (induction "k - a" arbitrary: a l0 ws)
  case 0
  then show ?case by simp
next
  case (Suc n)
  then have ak: "a < k" and n: "n = k - Suc a" by simp_all
  from Suc.prems(3) ak
  have "case fn a of Inl e \<Rightarrow> isRateLimit e | Inr v \<Rightarrow> False" by simp
  then obtain e where e: "fn a = Inl e" "isRateLimit e"
    by (cases "fn a") simp_all
  have step: "retry_loop fn maxRetries baseDelay a l0 ws =
      retry_loop fn maxRetries baseDelay (Suc a) e (ws @ [baseDelay * 2 ^ a])"
    using e ak Suc.prems(2) by (subst retry_loop.simps) simp
  from Suc.hyps(1) [OF n, of e "ws @ [baseDelay * 2 ^ a]"] Suc.prems ak
  obtain l where l: "retry_loop fn maxRetries baseDelay (Suc a) e (ws @ [baseDelay * 2 ^ a]) =
           retry_loop fn maxRetries baseDelay k l
             ((ws @ [baseDelay * 2 ^ a]) @ map (\<lambda>i. baseDelay * 2 ^ i) [Suc a..<k])"
       "Suc a = k \<longrightarrow> l = e" "Suc a < k \<longrightarrow> fn (k - 1) = Inl l"
    by auto
  have "fn (k - 1) = Inl l"
  proof (cases "Suc a = k")
    case True
    with l(2) e(1) show ?thesis by auto
  next
    case False
    with ak l(3) show ?thesis by simp
  qed
  moreover have "[a..<k] = a # [Suc a..<k]"
    using ak by (simp add: upt_conv_Cons)
  ultimately show ?case
    using step l(1) ak by auto
qed

lemma retry_loop_from_start:
  assumes "int k \<le> maxRetries" and "rate_limited_upto fn k"
  shows "\<exists>l. retryWithBackoff fn maxRetries baseDelay =
           retry_loop fn maxRetries baseDelay k l (backoff_delays baseDelay k)"
proof -
  from assms(2) have
    "\<forall>i. 0 \<le> i \<and> i < k \<longrightarrow> (case fn i of Inl e \<Rightarrow> isRateLimit e | Inr v \<Rightarrow> False)"
    by (simp add: rate_limited_upto_iff)
  from retry_loop_rate_limited [OF _ assms(1) this, of baseDelay Undefined "[]"]
  show ?thesis
    by (auto simp: retryWithBackoff_def backoff_delays_def)
qed

lemma retryWithBackoff_success:
  assumes "int k \<le> maxRetries" and "rate_limited_upto fn k" and "fn k = Inr v"
  shows "retryWithBackoff fn maxRetries baseDelay =
           \<lparr>result = Inr v, calls = k + 1, waits = backoff_delays baseDelay k\<rparr>"
proof -
  from retry_loop_from_start [OF assms(1,2)] obtain l where
    "retryWithBackoff fn maxRetries baseDelay =
       retry_loop fn maxRetries baseDelay k l (backoff_delays baseDelay k)" by blast
  then show ?thesis
    using assms(1,3) by (subst (asm) retry_loop.simps) simp
qed

lemma retryWithBackoff_other_failure:
  assumes "int j \<le> maxRetries" and "rate_limited_upto fn j"
    and "fn j = Inl e" and "\<not> isRateLimit e"
  shows "retryWithBackoff fn maxRetries baseDelay =
           \<lparr>result = Inl e, calls = j + 1, waits = backoff_delays baseDelay j\<rparr>"
proof -
  from retry_loop_from_start [OF assms(1,2)] obtain l where
    "retryWithBackoff fn maxRetries baseDelay =
       retry_loop fn maxRetries baseDelay j l (backoff_delays baseDelay j)" by blast
  then show ?thesis
    using assms(1,3,4) by (subst (asm) retry_loop.simps) simp
qed

lemma retryWithBackoff_exhausted:
  assumes "0 \<le> maxRetries" and "rate_limited_upto fn (nat maxRetries + 1)"
  shows "\<exists>e. fn (nat maxRetries) = Inl e \<and> isRateLimit e \<and>
           retryWithBackoff fn maxRetries baseDelay =
             \<lparr>result = Inl e, calls = nat maxRetries + 1,
              waits = backoff_delays baseDelay (nat maxRetries)\<rparr>"
proof -
  from assms(2) have upto: "rate_limited_upto fn (nat maxRetries)"
    and "case fn (nat maxRetries) of Inl e \<Rightarrow> isRateLimit e | Inr v \<Rightarrow> False"
    by simp_all
  then obtain e where e: "fn (nat maxRetries) = Inl e" "isRateLimit e"
    by (cases "fn (nat maxRetries)") simp_all
  from assms(1) have le: "int (nat maxRetries) \<le> maxRetries" by simp
  from retry_loop_from_start [OF le upto] obtain l where
    "retryWithBackoff fn maxRetries baseDelay =
       retry_loop fn maxRetries baseDelay (nat maxRetries) l
         (backoff_delays baseDelay (nat maxRetries))" by blast
  then have "retryWithBackoff fn maxRetries baseDelay =
      \<lparr>result = Inl e, calls = nat maxRetries + 1,
       waits = backoff_delays baseDelay (nat maxRetries)\<rparr>"
    using assms(1) e by (subst (asm) retry_loop.simps) simp
  with e show ?thesis by blast
qed

lemma retryWithBackoff_no_retries:
  "calls (retryWithBackoff fn 0 baseDelay) = 1 \<and> waits (retryWithBackoff fn 0 baseDelay) = []"
  unfolding retryWithBackoff_def
  by (subst retry_loop.simps, simp split: sum.split)+

text \<open>
  With a negative \<open>maxRetries\<close> the loop body never runs: the operation is not called, and
  the \<^verbatim>\<open>throw lastError\<close> after the loop throws \<^verbatim>\<open>undefined\<close>.
\<close>

lemma retryWithBackoff_negative:
  "maxRetries < 0 \<Longrightarrow>
   retryWithBackoff fn maxRetries baseDelay = \<lparr>result = Inl Undefined, calls = 0, waits = []\<rparr>"
  unfolding retryWithBackoff_def by (subst retry_loop.simps) simp

lemma sum_list_backoff_delays:
  "sum_list (backoff_delays baseDelay k) = (\<Sum>i<k. baseDelay * 2 ^ i)"
  by (induction k) (simp_all add: backoff_delays_def)

lemma sum_backoff_closed: "(\<Sum>i<k. baseDelay * 2 ^ i) = (baseDelay :: int) * (2 ^ k - 1)"
  by (induction k) (simp_all add: algebra_simps)

lemma backoff_delays_default:
  "k \<le> 5 \<Longrightarrow> backoff_delays 2000 k = take k [2000, 4000, 8000, 16000, 32000]"
proof -
  assume "k \<le> 5"
  then consider "k = 0" | "k = 1" | "k = 2" | "k = 3" | "k = 4" | "k = 5" by linarith
  then show ?thesis
    by cases (simp_all add: backoff_delays_def upt_rec numeral_eq_Suc)
qed

text \<open>
  Claim C1. If the operation is rejected with a rate-limit error \<open>k\<close> times, with
  \<open>0 \<le> k \<le> maxRetries\<close>, and then succeeds, \<^verbatim>\<open>retryWithBackoff\<close> returns the value of
  the successful call, after \<open>k + 1\<close> calls; the delays it has waited for are
  \<open>baseDelay * 2 ^ i\<close> for \<open>i = 0, ..., k - 1\<close>, in this order, so the total is their sum,
  \<open>baseDelay * (2 ^ k - 1)\<close>. With the default parameters the delays are the first \<open>k\<close> of
  2000, 4000, 8000, 16000, 32000 milliseconds.
\<close>

theorem retryWithBackoff_success_after_rate_limits:
  assumes "int k \<le> maxRetries" and "rate_limited_upto fn k" and "fn k = Inr v"
  shows "result (retryWithBackoff fn maxRetries baseDelay) = Inr v
       \<and> calls (retryWithBackoff fn maxRetries baseDelay) = k + 1
       \<and> waits (retryWithBackoff fn maxRetries baseDelay) = map (\<lambda>i. baseDelay * 2 ^ i) [0..<k]
       \<and> sum_list (waits (retryWithBackoff fn maxRetries baseDelay)) = (\<Sum>i<k. baseDelay * 2 ^ i)
       \<and> sum_list (waits (retryWithBackoff fn maxRetries baseDelay)) = baseDelay * (2 ^ k - 1)
       \<and> (maxRetries = 5 \<longrightarrow>
            result (retryWithBackoff_default fn) = Inr v \<and>
            waits (retryWithBackoff_default fn) = take k [2000, 4000, 8000, 16000, 32000])"
proof -
  have r: "retryWithBackoff fn maxRetries baseDelay =
      \<lparr>result = Inr v, calls = k + 1, waits = backoff_delays baseDelay k\<rparr>"
    using assms by (rule retryWithBackoff_success)
  have d: "maxRetries = 5 \<longrightarrow> retryWithBackoff_default fn =
      \<lparr>result = Inr v, calls = k + 1, waits = take k [2000, 4000, 8000, 16000, 32000]\<rparr>"
  proof
    assume m: "maxRetries = 5"
    with assms(1) have "k \<le> 5" by simp
    then show "retryWithBackoff_default fn =
      \<lparr>result = Inr v, calls = k + 1, waits = take k [2000, 4000, 8000, 16000, 32000]\<rparr>"
      using retryWithBackoff_success [OF assms(1) assms(2) assms(3), of 2000] m
      by (simp add: retryWithBackoff_default_def backoff_delays_default)
  qed
  have s: "sum_list (backoff_delays baseDelay k) = (\<Sum>i<k. baseDelay * 2 ^ i)"
    by (rule sum_list_backoff_delays)
  show ?thesis
    using r d s sum_backoff_closed [of baseDelay k]
    by (simp add: backoff_delays_def)
qed

theorem retryWithBackoff_success_after_rate_limits_witness:
  "int 3 \<le> 5 \<and> rate_limited_upto three_rate_limits 3 \<and> three_rate_limits 3 = Inr ''done''
   \<and> result (retryWithBackoff three_rate_limits 5 2000) = Inr ''done''
   \<and> calls (retryWithBackoff three_rate_limits 5 2000) = 4
   \<and> waits (retryWithBackoff three_rate_limits 5 2000) = [2000, 4000, 8000]
   \<and> sum_list (waits (retryWithBackoff three_rate_limits 5 2000)) = 14000
   \<and> waits (retryWithBackoff_default three_rate_limits) = [2000, 4000, 8000]"
proof -
  have h1: "int 3 \<le> 5" by simp
  have h2: "rate_limited_upto three_rate_limits 3"
    by (simp add: numeral_eq_Suc three_rate_limits_def)
  have h3: "three_rate_limits 3 = Inr ''done''"
    by (simp add: three_rate_limits_def)
  show ?thesis
    using h1 h2 h3 retryWithBackoff_success_after_rate_limits [OF h1 h2 h3, of 2000]
    by (simp add: upt_rec numeral_eq_Suc)
qed

text \<open>
  Claim C2. A rejection that is not a rate-limit error is propagated when it first occurs:
  the operation is not called again and no delay is added for it (at the first call: one call
  and no delay at all). If every call up to and including call number \<open>maxRetries\<close> is
  rejected with a rate-limit error, the operation has been called \<open>maxRetries + 1\<close> times and
  the rejection of the last call is propagated. With \<open>maxRetries = 0\<close> there is exactly one
  call and no delay, whatever the operation does.
\<close>

theorem retryWithBackoff_propagation:
  "(int j \<le> maxRetries \<and> rate_limited_upto fn j \<and> fn j = Inl e \<and> \<not> isRateLimit e \<longrightarrow>
      retryWithBackoff fn maxRetries baseDelay =
        \<lparr>result = Inl e, calls = j + 1, waits = map (\<lambda>i. baseDelay * 2 ^ i) [0..<j]\<rparr>)
   \<and> (0 \<le> maxRetries \<and> fn 0 = Inl e \<and> \<not> isRateLimit e \<longrightarrow>
      retryWithBackoff fn maxRetries baseDelay = \<lparr>result = Inl e, calls = 1, waits = []\<rparr>)
   \<and> (0 \<le> maxRetries \<and> rate_limited_upto fn (nat maxRetries + 1) \<longrightarrow>
      (\<exists>e'. isRateLimit e' \<and> fn (nat maxRetries) = Inl e' \<and>
         retryWithBackoff fn maxRetries baseDelay =
           \<lparr>result = Inl e', calls = nat maxRetries + 1,
            waits = map (\<lambda>i. baseDelay * 2 ^ i) [0..<nat maxRetries]\<rparr>))
   \<and> calls (retryWithBackoff fn 0 baseDelay) = 1
   \<and> waits (retryWithBackoff fn 0 baseDelay) = []"
proof -
  have a: "int j \<le> maxRetries \<and> rate_limited_upto fn j \<and> fn j = Inl e \<and> \<not> isRateLimit e \<longrightarrow>
      retryWithBackoff fn maxRetries baseDelay =
        \<lparr>result = Inl e, calls = j + 1, waits = map (\<lambda>i. baseDelay * 2 ^ i) [0..<j]\<rparr>"
    using retryWithBackoff_other_failure [of j maxRetries fn e baseDelay]
    by (simp add: backoff_delays_def)
  have b: "0 \<le> maxRetries \<and> fn 0 = Inl e \<and> \<not> isRateLimit e \<longrightarrow>
      retryWithBackoff fn maxRetries baseDelay = \<lparr>result = Inl e, calls = 1, waits = []\<rparr>"
    using retryWithBackoff_other_failure [of 0 maxRetries fn e baseDelay]
    by (simp add: backoff_delays_def)
  have c: "0 \<le> maxRetries \<and> rate_limited_upto fn (nat maxRetries + 1) \<longrightarrow>
      (\<exists>e'. isRateLimit e' \<and> fn (nat maxRetries) = Inl e' \<and>
         retryWithBackoff fn maxRetries baseDelay =
           \<lparr>result = Inl e', calls = nat maxRetries + 1,
            waits = map (\<lambda>i. baseDelay * 2 ^ i) [0..<nat maxRetries]\<rparr>)"
    using retryWithBackoff_exhausted [of maxRetries fn baseDelay]
    by (auto simp: backoff_delays_def)
  from a b c retryWithBackoff_no_retries [of fn baseDelay] show ?thesis by blast
qed

theorem retryWithBackoff_propagation_witness:
  "(0 \<le> (5::int) \<and> server_error_first 0 = Inl (Error (Some 500) None (Some ''Internal Server Error''))
      \<and> \<not> isRateLimit (Error (Some 500) None (Some ''Internal Server Error''))
      \<and> retryWithBackoff server_error_first 5 2000 =
          \<lparr>result = Inl (Error (Some 500) None (Some ''Internal Server Error'')),
           calls = 1, waits = []\<rparr>)
   \<and> (0 \<le> (5::int) \<and> rate_limited_upto always_429 (nat 5 + 1)
      \<and> result (retryWithBackoff always_429 5 2000) =
          Inl (Error (Some 429) None (Some ''Too Many Requests''))
      \<and> calls (retryWithBackoff always_429 5 2000) = 6
      \<and> length (waits (retryWithBackoff always_429 5 2000)) = 5)
   \<and> calls (retryWithBackoff always_429 0 2000) = 1
   \<and> waits (retryWithBackoff always_429 0 2000) = []"
proof -
  have h1: "server_error_first 0 = Inl (Error (Some 500) None (Some ''Internal Server Error''))"
    by (simp add: server_error_first_def)
  have h2: "\<not> isRateLimit (Error (Some 500) None (Some ''Internal Server Error''))"
    by simp
  have h3: "rate_limited_upto always_429 (nat 5 + 1)"
    by (simp add: numeral_eq_Suc always_429_def)
  have h4: "always_429 (nat 5) = Inl (Error (Some 429) None (Some ''Too Many Requests''))"
    by (simp add: always_429_def)
  from retryWithBackoff_propagation
    [of 0 5 server_error_first "Error (Some 500) None (Some ''Internal Server Error'')" 2000]
    h1 h2
  have p1: "retryWithBackoff server_error_first 5 2000 =
          \<lparr>result = Inl (Error (Some 500) None (Some ''Internal Server Error'')),
           calls = 1, waits = []\<rparr>"
    by simp
  from retryWithBackoff_propagation [of 0 5 always_429 Undefined 2000] h3 h4
  have p2: "result (retryWithBackoff always_429 5 2000) =
          Inl (Error (Some 429) None (Some ''Too Many Requests''))
      \<and> calls (retryWithBackoff always_429 5 2000) = 6
      \<and> length (waits (retryWithBackoff always_429 5 2000)) = 5"
    by simp
  from retryWithBackoff_propagation [of 0 0 always_429 Undefined 2000]
  have p3: "calls (retryWithBackoff always_429 0 2000) = 1
   \<and> waits (retryWithBackoff always_429 0 2000) = []"
    by simp
  show ?thesis using h1 h2 h3 p1 p2 p3 by simp
qed

section \<open>Properties of cleanJson\<close>

lemma str_includes_sublist: "str_includes s pat \<longleftrightarrow> sublist pat s"
  by (induction s) (auto simp: sublist_Cons_right)

lemma str_includes_iff: "str_includes s pat \<longleftrightarrow> (\<exists>p r. s = p @ pat @ r)"
  by (simp add: str_includes_sublist sublist_def)

lemma str_includes_length: "str_includes s pat \<Longrightarrow> length pat \<le> length s"
  by (auto simp: str_includes_iff)

lemma str_includes_append_right: "str_includes s pat \<Longrightarrow> str_includes (s @ t) pat"
  by (auto simp: str_includes_iff) (metis append.assoc)

lemma not_in_butlast: "pat \<noteq> [] \<Longrightarrow> \<not> str_includes (butlast pat) pat"
  using str_includes_length [of "butlast pat" pat] by (cases pat rule: rev_cases) auto

lemma prefix_of_shorter:
  assumes "prefix cl (a @ cl @ r)" and "a \<noteq> []"
  shows "prefix cl (a @ butlast cl)"
proof -
  have "prefix (a @ butlast cl) (a @ cl @ r)"
    by (simp add: prefixeq_butlast)
  moreover have "length cl \<le> length (a @ butlast cl)"
    using assms(2) by (cases a) simp_all
  ultimately show ?thesis
    using assms(1) prefix_length_prefix by blast
qed

lemma prefix_of_longer:
  assumes "prefix cl (a @ butlast cl)"
  shows "prefix cl (a @ cl @ r)"
proof -
  have "prefix (a @ butlast cl) (a @ cl @ r)"
    by (simp add: prefixeq_butlast)
  with assms show ?thesis
    using prefix_order.trans by blast
qed

lemma lazy_upto_first:
  assumes "cl \<noteq> []" and "\<not> str_includes (c @ butlast cl) cl"
  shows "lazy_upto cl (c @ cl @ r) = Some c"
  using assms(2)
proof (induction c)
  case Nil
  with assms(1) show ?case by (cases cl) simp_all
next
  case (Cons x c)
  then have np: "\<not> prefix cl ((x # c) @ butlast cl)" and rest: "\<not> str_includes (c @ butlast cl) cl"
    by simp_all
  from np have "\<not> prefix cl ((x # c) @ cl @ r)"
    using prefix_of_shorter [of cl "x # c" r] by blast
  with Cons.IH [OF rest] show ?case by simp
qed

lemma lazy_upto_sound:
  assumes "lazy_upto cl s = Some c"
  shows "\<exists>r. s = c @ cl @ r"
  using assms
proof (induction s arbitrary: c)
  case Nil
  then show ?case by (simp split: if_splits)
next
  case (Cons x xs)
  show ?case
  proof (cases "prefix cl (x # xs)")
    case True
    with Cons.prems show ?thesis by (auto simp: prefix_def)
  next
    case False
    with Cons.prems obtain c' where c': "lazy_upto cl xs = Some c'" "c = x # c'" by auto
    from Cons.IH [OF c'(1)] c'(2) show ?thesis by auto
  qed
qed

lemma lazy_upto_shortest:
  assumes "lazy_upto cl s = Some c" and "cl \<noteq> []"
  shows "\<not> str_includes (c @ butlast cl) cl"
  using assms(1)
proof (induction s arbitrary: c)
  case Nil
  with assms(2) show ?case by simp
next
  case (Cons x xs)
  show ?case
  proof (cases "prefix cl (x # xs)")
    case True
    with Cons.prems have "c = []" by simp
    with assms(2) show ?thesis by (simp add: not_in_butlast)
  next
    case False
    with Cons.prems obtain c' where c': "lazy_upto cl xs = Some c'" "c = x # c'" by auto
    from lazy_upto_sound [OF c'(1)] obtain r where r: "xs = c' @ cl @ r" by blast
    have "\<not> prefix cl ((x # c') @ butlast cl)"
      using False r prefix_of_longer [of cl "x # c'" r] by auto
    with Cons.IH [OF c'(1)] c'(2) show ?thesis by simp
  qed
qed

lemma lazy_upto_None: "lazy_upto cl s = None \<longleftrightarrow> \<not> str_includes s cl"
  by (induction s) auto

lemma match_at_sound:
  "match_at op cl s = Some c \<Longrightarrow> \<exists>r. s = op @ c @ cl @ r"
  by (auto simp: match_at_def prefix_def split: if_splits dest!: lazy_upto_sound)

lemma regex_match_sound:
  "regex_match op cl s = Some c \<Longrightarrow> \<exists>p r. s = p @ op @ c @ cl @ r"
proof (induction s)
  case Nil
  then show ?case by (auto dest: match_at_sound)
next
  case (Cons x xs)
  show ?case
  proof (cases "match_at op cl (x # xs)")
    case None
    with Cons obtain p r where "xs = p @ op @ c @ cl @ r" by auto
    then have "x # xs = (x # p) @ op @ c @ cl @ r" by simp
    then show ?thesis by blast
  next
    case (Some c')
    with Cons.prems have "c' = c" by simp
    with Some match_at_sound [of op cl "x # xs" c] obtain r where "x # xs = [] @ op @ c @ cl @ r"
      by auto
    then show ?thesis by blast
  qed
qed

lemma regex_match_shortest:
  assumes "cl \<noteq> []"
  shows "regex_match op cl s = Some c \<Longrightarrow> \<not> str_includes (c @ butlast cl) cl"
  using assms
  by (induction s)
     (auto simp: match_at_def split: if_splits option.splits dest: lazy_upto_shortest [OF _ assms])

lemma regex_match_first:
  assumes "op \<noteq> []" and "cl \<noteq> []"
    and "\<not> str_includes (p @ butlast op) op" and "\<not> str_includes (c @ butlast cl) cl"
  shows "regex_match op cl (p @ op @ c @ cl @ r) = Some c"
  using assms(3)
proof (induction p)
  case Nil
  have "match_at op cl (op @ c @ cl @ r) = Some c"
    using lazy_upto_first [OF assms(2,4)] by (simp add: match_at_def)
  with assms(1) show ?case by (cases op) simp_all
next
  case (Cons x p)
  then have np: "\<not> prefix op ((x # p) @ butlast op)" and rest: "\<not> str_includes (p @ butlast op) op"
    by simp_all
  from np have "\<not> prefix op ((x # p) @ op @ c @ cl @ r)"
    using prefix_of_shorter [of op "x # p" "c @ cl @ r"] by blast
  then have "match_at op cl ((x # p) @ op @ c @ cl @ r) = None"
    by (simp add: match_at_def)
  with Cons.IH [OF rest] show ?case by simp
qed

lemma regex_match_None_if: "\<not> str_includes s op \<Longrightarrow> regex_match op cl s = None"
  by (induction s) (auto simp: match_at_def split: option.splits if_splits)

lemma regex_match_complete:
  "regex_match op cl (p @ op @ c @ cl @ r) \<noteq> None"
proof (induction p)
  case Nil
  have "str_includes (c @ cl @ r) cl" by (auto simp: str_includes_iff)
  then have "lazy_upto cl (c @ cl @ r) \<noteq> None" by (simp add: lazy_upto_None)
  then have "match_at op cl (op @ c @ cl @ r) \<noteq> None" by (simp add: match_at_def)
  then show ?case by (cases "op @ c @ cl @ r") auto
next
  case (Cons x p)
  then show ?case by (auto split: option.splits)
qed


lemma str_includes_longer_pattern:
  "str_includes s (pat @ ext) \<Longrightarrow> str_includes s pat"
  by (auto simp: str_includes_iff)

lemma cleanJson_no_fence: "\<not> str_includes s fence \<Longrightarrow> cleanJson s = s"
proof -
  assume nf: "\<not> str_includes s fence"
  have "open_json = fence @ ''json\<newline>''" by (simp add: open_json_def fence_def)
  with nf have "\<not> str_includes s open_json"
    using str_includes_longer_pattern [of s fence "''json\<newline>''"] by auto
  with nf show ?thesis
    by (simp add: cleanJson_def regex_match_None_if)
qed

lemma cleanJson_idem_no_open:
  assumes "\<not> str_includes s open_json"
  shows "cleanJson (cleanJson s) = cleanJson s"
proof (cases "regex_match fence fence s")
  case None
  with assms show ?thesis by (simp add: cleanJson_def regex_match_None_if)
next
  case (Some c)
  have "fence \<noteq> []" by (simp add: fence_def)
  from regex_match_shortest [OF this Some] have "\<not> str_includes c fence"
    using str_includes_append_right by blast
  then have "cleanJson c = c" by (rule cleanJson_no_fence)
  moreover from assms Some have "cleanJson s = c"
    by (simp add: cleanJson_def regex_match_None_if)
  ultimately show ?thesis by simp
qed

lemma json_lexical_line_break:
  assumes "json_lexical True (q @ CHR 0x0A # r)"
    and "CHR 0x22 \<notin> set q" and "CHR 0x5C \<notin> set q"
  shows False
  using assms by (induction q) auto

lemma json_lexical_no_open_prefix:
  "json_lexical b s \<Longrightarrow> \<not> prefix open_json s"
proof
  assume l: "json_lexical b s" and "prefix open_json s"
  then obtain r where s: "s = ''```json'' @ CHR 0x0A # r"
    by (auto simp: prefix_def open_json_def)
  show False
  proof (cases b)
    case True
    with l s json_lexical_line_break [of "''```json''" r] show False by simp
  next
    case False
    with l s show False by simp
  qed
qed

lemma json_lexical_no_open: "json_lexical b s \<Longrightarrow> \<not> str_includes s open_json"
proof (induction b s rule: json_lexical.induct)
  case (1 in_string)
  then show ?case by (simp add: open_json_def)
next
  case (2 x xs)
  from json_lexical_no_open_prefix [OF "2.prems"] "2.IH" "2.prems"
  show ?case by (auto split: if_splits)
next
  case (3 x xs)
  note np = json_lexical_no_open_prefix [OF "3.prems"]
  show ?case
  proof (cases "x = CHR 0x5C")
    case True
    with "3.prems" obtain y ys where xs: "xs = y # ys" and l: "json_lexical True ys"
      by (auto split: list.splits)
    have "\<not> prefix open_json (y # ys)"
    proof
      assume "prefix open_json (y # ys)"
      then obtain r where "ys = ''``json'' @ CHR 0x0A # r"
        by (auto simp: prefix_def open_json_def)
      with l json_lexical_line_break [of "''``json''" r] show False by simp
    qed
    moreover have "\<not> str_includes ys open_json"
      using "3.IH"(1) [OF True xs l] .
    ultimately show ?thesis using np xs by simp
  next
    case False
    with "3.prems" "3.IH" np show ?thesis by (auto split: if_splits)
  qed
qed

text \<open>
  Claim C9. The extractor is idempotent on bare JSON: \<open>cleanJson (cleanJson s) = cleanJson s\<close>
  for every string \<open>s\<close> that meets the lexical condition of a JSON text, and more generally for
  every string in which \<^verbatim>\<open>```json\<close> followed by a line break does not occur. A string without any
  fence is returned unchanged. (A JSON text with fences inside a string literal is not
  returned unchanged, but one more application changes nothing.)
\<close>

theorem cleanJson_idempotent_on_bare_json:
  "(json_lexical False s \<longrightarrow> cleanJson (cleanJson s) = cleanJson s)
   \<and> (\<not> str_includes s open_json \<longrightarrow> cleanJson (cleanJson s) = cleanJson s)
   \<and> (\<not> str_includes s fence \<longrightarrow> cleanJson s = s)"
  using json_lexical_no_open [of False s] cleanJson_idem_no_open [of s] cleanJson_no_fence [of s]
  by blast


theorem cleanJson_idempotent_on_bare_json_witness:
  "json_lexical False ''{\"a\":\"```x```\"}''
   \<and> \<not> str_includes ''{\"a\":\"```x```\"}'' open_json
   \<and> cleanJson ''{\"a\":\"```x```\"}'' = ''x''
   \<and> cleanJson (cleanJson ''{\"a\":\"```x```\"}'') = cleanJson ''{\"a\":\"```x```\"}''
   \<and> \<not> str_includes ''{\"a\":1}'' fence
   \<and> cleanJson ''{\"a\":1}'' = ''{\"a\":1}''"
proof -
  have h1: "json_lexical False ''{\"a\":\"```x```\"}''" by simp
  have h2: "\<not> str_includes ''{\"a\":\"```x```\"}'' open_json" by (simp add: open_json_def)
  have h3: "\<not> str_includes ''{\"a\":1}'' fence" by (simp add: fence_def)
  have v: "cleanJson ''{\"a\":\"```x```\"}'' = ''x''"
    by (simp add: cleanJson_def open_json_def close_json_def fence_def match_at_def)
  from cleanJson_idempotent_on_bare_json [of "''{\"a\":\"```x```\"}''"] h1
  have i: "cleanJson (cleanJson ''{\"a\":\"```x```\"}'') = cleanJson ''{\"a\":\"```x```\"}''"
    by blast
  from cleanJson_idempotent_on_bare_json [of "''{\"a\":1}''"] h3
  have u: "cleanJson ''{\"a\":1}'' = ''{\"a\":1}''"
    by blast
  from h1 h2 h3 v i u show ?thesis by blast
qed

lemma no_block_if_no_opener:
  "\<not> str_includes s op \<Longrightarrow> \<forall>p c r. s \<noteq> p @ op @ c @ cl @ r"
  by (auto simp: str_includes_iff)

lemma first_occurrence:
  assumes "str_includes s pat" and "pat \<noteq> []"
  shows "\<exists>p r. s = p @ pat @ r \<and> starts_first pat p"
proof -
  from assms(1) have "lazy_upto pat s \<noteq> None" by (simp add: lazy_upto_None)
  then obtain p where p: "lazy_upto pat s = Some p" by blast
  from lazy_upto_sound [OF p] lazy_upto_shortest [OF p assms(2)] show ?thesis
    by (auto simp: starts_first_def)
qed

lemma first_occurrence_leftmost:
  assumes "p @ pat @ r = p' @ pat @ r'" and "starts_first pat p"
  shows "\<exists>q. p' @ pat = p @ pat @ q"
proof -
  have le: "length p \<le> length p'"
  proof (rule ccontr)
    assume "\<not> length p \<le> length p'"
    then have lt: "length p' < length p" by simp
    have "prefix (p' @ pat) (p @ pat @ r)" using assms(1) by (simp add: prefix_def)
    moreover have "prefix (p @ butlast pat) (p @ pat @ r)" by (simp add: prefixeq_butlast)
    moreover have "length (p' @ pat) \<le> length (p @ butlast pat)" using lt by simp
    ultimately have "prefix (p' @ pat) (p @ butlast pat)"
      using prefix_length_prefix by blast
    then have "str_includes (p @ butlast pat) pat"
      by (auto simp: str_includes_iff prefix_def)
    with assms(2) show False by (simp add: starts_first_def)
  qed
  have "prefix (p @ pat) (p' @ pat @ r')" using assms(1) [symmetric] by (simp add: prefix_def)
  moreover have "prefix (p' @ pat) (p' @ pat @ r')" by simp
  ultimately have "prefix (p @ pat) (p' @ pat)"
    using le prefix_length_prefix [of "p @ pat" "p' @ pat @ r'" "p' @ pat"] by simp
  then show ?thesis by (auto simp: prefix_def)
qed

lemma first_block_exists:
  assumes "s = p' @ op @ c' @ cl @ r'" and "op \<noteq> []" and "cl \<noteq> []"
  shows "\<exists>p c r. s = p @ op @ c @ cl @ r \<and> starts_first op p \<and> starts_first cl c"
proof -
  from assms(1) have "str_includes s op" by (auto simp: str_includes_iff)
  from first_occurrence [OF this assms(2)] obtain p t where
    p: "s = p @ op @ t" "starts_first op p" by blast
  from p(1) assms(1) have "p @ op @ t = p' @ op @ (c' @ cl @ r')" by simp
  from first_occurrence_leftmost [OF this p(2)] obtain q where q: "p' @ op = p @ op @ q"
    by blast
  have "s = (p' @ op) @ c' @ cl @ r'" using assms(1) by simp
  with q have "s = p @ op @ q @ c' @ cl @ r'" by simp
  with p(1) have t: "t = (q @ c') @ cl @ r'" by simp
  then have "\<exists>x y. t = x @ cl @ y" by blast
  then have "str_includes t cl" by (simp add: str_includes_iff)
  from first_occurrence [OF this assms(3)] obtain c r where
    "t = c @ cl @ r" "starts_first cl c" by blast
  with p show ?thesis by blast
qed

lemma cleanJson_json_block:
  assumes "starts_first open_json p" and "starts_first close_json c"
  shows "cleanJson (p @ open_json @ c @ close_json @ r) = c"
proof -
  have "open_json \<noteq> []" "close_json \<noteq> []"
    by (simp_all add: open_json_def close_json_def)
  from regex_match_first [OF this, of p c r] assms show ?thesis
    by (simp add: cleanJson_def starts_first_def)
qed

lemma cleanJson_any_block:
  assumes "\<forall>p' c' r'. s \<noteq> p' @ open_json @ c' @ close_json @ r'"
    and "s = p @ fence @ c @ fence @ r"
    and "starts_first fence p" and "starts_first fence c"
  shows "cleanJson s = c"
proof -
  have "regex_match open_json close_json s = None"
  proof (cases "regex_match open_json close_json s")
    case (Some c')
    from regex_match_sound [OF this] assms(1) show ?thesis by blast
  qed simp
  moreover have "fence \<noteq> []" by (simp add: fence_def)
  from regex_match_first [OF this this, of p c r] assms(2-4)
  have "regex_match fence fence s = Some c"
    by (simp add: starts_first_def)
  ultimately show ?thesis by (simp add: cleanJson_def)
qed

lemma cleanJson_no_block:
  assumes "\<forall>p' c' r'. s \<noteq> p' @ open_json @ c' @ close_json @ r'"
    and "\<forall>p' c' r'. s \<noteq> p' @ fence @ c' @ fence @ r'"
  shows "cleanJson s = s"
proof -
  have "regex_match open_json close_json s = None"
  proof (cases "regex_match open_json close_json s")
    case (Some c')
    from regex_match_sound [OF this] assms(1) show ?thesis by blast
  qed simp
  moreover have "regex_match fence fence s = None"
  proof (cases "regex_match fence fence s")
    case (Some c')
    from regex_match_sound [OF this] assms(2) show ?thesis by blast
  qed simp
  ultimately show ?thesis by (simp add: cleanJson_def)
qed

lemma cleanJson_vectors:
  "cleanJson ''```json\<newline>{\"a\":1}\<newline>```'' = ''{\"a\":1}''"
  "cleanJson ''```{\"a\":1}```'' = ''{\"a\":1}''"
  "cleanJson ''{\"a\":1}'' = ''{\"a\":1}''"
  by (simp_all add: cleanJson_def open_json_def close_json_def fence_def match_at_def)

text \<open>
  Claim C3, as amended. For every input string, \<open>cleanJson\<close> returns: the text between the
  leftmost \<^verbatim>\<open>```json\<close> that is followed by a line break and the first line break followed by
  \<^verbatim>\<open>```\<close> after it, when the input has this shape; otherwise the text between the leftmost
  \<^verbatim>\<open>```\<close> and the next \<^verbatim>\<open>```\<close> after it, whatever this text starts with (a language tag such as
  \<^verbatim>\<open>python\<close>, or \<^verbatim>\<open>json\<close> without the line breaks, is returned as part of it), when the input
  has two such markers; otherwise the input unchanged. The three test vectors hold.

  The first three parts below are the three cases; the next two say that an input with an
  opening and a closing literal has a leftmost opening literal and a first closing literal
  after it, so that the cases cover every input.
\<close>

theorem cleanJson_first_block:
  "(starts_first open_json p \<and> starts_first close_json c \<longrightarrow>
      cleanJson (p @ open_json @ c @ close_json @ r) = c)
   \<and> ((\<forall>p' c' r'. s \<noteq> p' @ open_json @ c' @ close_json @ r') \<and>
       s = p @ fence @ c @ fence @ r \<and> starts_first fence p \<and> starts_first fence c \<longrightarrow>
      cleanJson s = c)
   \<and> ((\<forall>p' c' r'. s \<noteq> p' @ open_json @ c' @ close_json @ r') \<and>
       (\<forall>p' c' r'. s \<noteq> p' @ fence @ c' @ fence @ r') \<longrightarrow>
      cleanJson s = s)
   \<and> ((\<exists>p' c' r'. s = p' @ open_json @ c' @ close_json @ r') \<longrightarrow>
      (\<exists>p c r. s = p @ open_json @ c @ close_json @ r \<and>
         starts_first open_json p \<and> starts_first close_json c))
   \<and> ((\<exists>p' c' r'. s = p' @ fence @ c' @ fence @ r') \<longrightarrow>
      (\<exists>p c r. s = p @ fence @ c @ fence @ r \<and> starts_first fence p \<and> starts_first fence c))
   \<and> cleanJson ''```json\<newline>{\"a\":1}\<newline>```'' = ''{\"a\":1}''
   \<and> cleanJson ''```{\"a\":1}```'' = ''{\"a\":1}''
   \<and> cleanJson ''{\"a\":1}'' = ''{\"a\":1}''"
proof -
  have ne: "open_json \<noteq> []" "close_json \<noteq> []" "fence \<noteq> []"
    by (simp_all add: open_json_def close_json_def fence_def)
  have "(\<exists>p' c' r'. s = p' @ open_json @ c' @ close_json @ r') \<longrightarrow>
      (\<exists>p c r. s = p @ open_json @ c @ close_json @ r \<and>
         starts_first open_json p \<and> starts_first close_json c)"
    using first_block_exists [OF _ ne(1) ne(2), of s] by blast
  moreover have "(\<exists>p' c' r'. s = p' @ fence @ c' @ fence @ r') \<longrightarrow>
      (\<exists>p c r. s = p @ fence @ c @ fence @ r \<and> starts_first fence p \<and> starts_first fence c)"
    using first_block_exists [OF _ ne(3) ne(3), of s] by blast
  ultimately show ?thesis
    using cleanJson_json_block [of p c r] cleanJson_any_block [of s p c r]
      cleanJson_no_block [of s] cleanJson_vectors
    by blast
qed

theorem cleanJson_first_block_witness:
  "(starts_first open_json ''Here: '' \<and> starts_first close_json ''[1, 2]'' \<and>
      cleanJson (''Here: '' @ open_json @ ''[1, 2]'' @ close_json @ '' and ```more```'') = ''[1, 2]'')
   \<and> ((\<forall>p' c' r'. ''```python\<newline>x\<newline>``` and ```y```'' \<noteq> p' @ open_json @ c' @ close_json @ r') \<and>
       ''```python\<newline>x\<newline>``` and ```y```'' = [] @ fence @ ''python\<newline>x\<newline>'' @ fence @ '' and ```y```'' \<and>
       starts_first fence [] \<and> starts_first fence ''python\<newline>x\<newline>'' \<and>
       cleanJson ''```python\<newline>x\<newline>``` and ```y```'' = ''python\<newline>x\<newline>'')
   \<and> ((\<forall>p' c' r'. ''{\"a\": \"``\"}'' \<noteq> p' @ open_json @ c' @ close_json @ r') \<and>
       (\<forall>p' c' r'. ''{\"a\": \"``\"}'' \<noteq> p' @ fence @ c' @ fence @ r') \<and>
       cleanJson ''{\"a\": \"``\"}'' = ''{\"a\": \"``\"}'')"
proof -
  have a1: "starts_first open_json ''Here: ''" and a2: "starts_first close_json ''[1, 2]''"
    by (simp_all add: starts_first_def open_json_def close_json_def)
  have b1: "\<forall>p' c' r'. ''```python\<newline>x\<newline>``` and ```y```'' \<noteq> p' @ open_json @ c' @ close_json @ r'"
    by (rule no_block_if_no_opener) (simp add: open_json_def)
  have b2: "''```python\<newline>x\<newline>``` and ```y```'' = [] @ fence @ ''python\<newline>x\<newline>'' @ fence @ '' and ```y```''"
    by (simp add: fence_def)
  have b3: "starts_first fence []" and b4: "starts_first fence ''python\<newline>x\<newline>''"
    by (simp_all add: starts_first_def fence_def)
  have c1: "\<forall>p' c' r'. ''{\"a\": \"``\"}'' \<noteq> p' @ open_json @ c' @ close_json @ r'"
    by (rule no_block_if_no_opener) (simp add: open_json_def)
  have c2: "\<forall>p' c' r'. ''{\"a\": \"``\"}'' \<noteq> p' @ fence @ c' @ fence @ r'"
    by (rule no_block_if_no_opener) (simp add: fence_def)
  from cleanJson_first_block [of "''Here: ''" "''[1, 2]''" "'' and ```more```''"] a1 a2
  have a: "cleanJson (''Here: '' @ open_json @ ''[1, 2]'' @ close_json @ '' and ```more```'') = ''[1, 2]''"
    by blast
  from cleanJson_first_block
    [of "[]" "''python\<newline>x\<newline>''" "'' and ```y```''" "''```python\<newline>x\<newline>``` and ```y```''"]
    b1 b2 b3 b4
  have b: "cleanJson ''```python\<newline>x\<newline>``` and ```y```'' = ''python\<newline>x\<newline>''"
    by blast
  from cleanJson_first_block [of _ _ _ "''{\"a\": \"``\"}''"] c1 c2
  have c: "cleanJson ''{\"a\": \"``\"}'' = ''{\"a\": \"``\"}''"
    by blast
  from a1 a2 a b1 b2 b3 b4 b c1 c2 c show ?thesis by blast
qed

text \<open>
  Claim C3 as stated fails. The input \<^verbatim>\<open>```python\<close>, line break, \<^verbatim>\<open>x\<close>, line break, \<^verbatim>\<open>```\<close>
  has no block tagged \<^verbatim>\<open>json\<close> and no block without a language tag, so the claim returns it
  unchanged; the source returns the tag and the content. For \<^verbatim>\<open>```json{"a":1}```\<close>, where
  the tag \<^verbatim>\<open>json\<close> follows the opening fence immediately, the source returns the tag with the
  content, not the enclosed content.
\<close>

theorem cleanJson_language_tag_counterexample:
  "cleanJson ''```python\<newline>x\<newline>```'' = ''python\<newline>x\<newline>''
   \<and> cleanJson_spec ''```python\<newline>x\<newline>```'' = ''```python\<newline>x\<newline>```''
   \<and> cleanJson ''```json{\"a\":1}```'' = ''json{\"a\":1}''
   \<and> cleanJson ''```json{\"a\":1}```'' \<noteq> ''{\"a\":1}''"
  by (simp add: cleanJson_def cleanJson_spec_def open_json_def close_json_def fence_def
      match_at_def fenced_blocks.simps language_tagged_def)

section \<open>Properties of the call sites\<close>

lemma retry_first_failure:
  assumes "create 0 req = Inl e" and "\<not> isRateLimit e"
  shows "result (create_with_retry create req) = Inl e"
  using retryWithBackoff_other_failure [of 0 5 "attempts create req" e 2000] assms
  by (simp add: create_with_retry_def retryWithBackoff_default_def attempts_def)

lemma retry_first_success:
  assumes "create 0 req = Inr r"
  shows "result (create_with_retry create req) = Inr r"
  using retryWithBackoff_success [of 0 5 "attempts create req" r 2000] assms
  by (simp add: create_with_retry_def retryWithBackoff_default_def attempts_def)

lemma retry_all_rate_limited:
  assumes "rate_limited_upto (attempts create req) 6"
  shows "\<exists>e. result (create_with_retry create req) = Inl e"
proof -
  from assms have "rate_limited_upto (attempts create req) (nat 5 + 1)"
    by (simp add: numeral_eq_Suc)
  from retryWithBackoff_exhausted [OF _ this, of 2000] show ?thesis
    by (auto simp: create_with_retry_def retryWithBackoff_default_def)
qed

lemma checkProjectFeasibility_total:
  "\<exists>r. checkProjectFeasibility create parse prompt = Inr r"
  by (simp add: checkProjectFeasibility_def split: sum.split)

lemma checkProjectFeasibility_provider_failure:
  "result (create_with_retry create (feasibility_request prompt)) = Inl e \<Longrightarrow>
   checkProjectFeasibility create parse prompt = Inr fallback"
  by (simp add: checkProjectFeasibility_def feasibility_try_def parsed_reply_def)

lemma checkProjectFeasibility_parse_failure:
  "result (create_with_retry create (feasibility_request prompt)) = Inr response \<Longrightarrow>
   parse (cleanJson (or_default (first_content response) ''{}'')) = Inl e \<Longrightarrow>
   checkProjectFeasibility create parse prompt = Inr fallback"
  by (simp add: checkProjectFeasibility_def feasibility_try_def parsed_reply_def)

lemma checkProjectFeasibility_null:
  "result (create_with_retry create (feasibility_request prompt)) = Inr response \<Longrightarrow>
   parse (cleanJson (or_default (first_content response) ''{}'')) = Inr JNull \<Longrightarrow>
   checkProjectFeasibility create parse prompt = Inr fallback"
  by (simp add: checkProjectFeasibility_def feasibility_try_def parsed_reply_def feasibility_of_def)

text \<open>
  Claim C4. \<^verbatim>\<open>checkProjectFeasibility\<close> never propagates a failure: its promise is fulfilled
  for every provider, parser and prompt. When the provider fails (whatever error
  \<^verbatim>\<open>retryWithBackoff\<close> propagates, in particular an error that is not a rate limit at the first
  request, and six rate-limit errors in a row), when \<^verbatim>\<open>JSON.parse\<close> fails, and when the reply
  parses to \<^verbatim>\<open>null\<close>, the result is the fixed fallback object: \<^verbatim>\<open>isValid\<close> false,
  \<^verbatim>\<open>budgetVerdict\<close> \<^verbatim>\<open>Insufficient\<close>, the single issue \<^verbatim>\<open>Service unavailable or parse error\<close>, and no
  suggestion.
\<close>

theorem checkProjectFeasibility_never_fails:
  "(\<exists>r. checkProjectFeasibility create parse prompt = Inr r)
   \<and> (result (create_with_retry create (feasibility_request prompt)) = Inl e \<longrightarrow>
        checkProjectFeasibility create parse prompt = Inr fallback)
   \<and> (create 0 (feasibility_request prompt) = Inl e \<and> \<not> isRateLimit e \<longrightarrow>
        checkProjectFeasibility create parse prompt = Inr fallback)
   \<and> (rate_limited_upto (attempts create (feasibility_request prompt)) 6 \<longrightarrow>
        checkProjectFeasibility create parse prompt = Inr fallback)
   \<and> (result (create_with_retry create (feasibility_request prompt)) = Inr response \<and>
       parse (cleanJson (or_default (first_content response) ''{}'')) = Inl e \<longrightarrow>
        checkProjectFeasibility create parse prompt = Inr fallback)
   \<and> (result (create_with_retry create (feasibility_request prompt)) = Inr response \<and>
       parse (cleanJson (or_default (first_content response) ''{}'')) = Inr JNull \<longrightarrow>
        checkProjectFeasibility create parse prompt = Inr fallback)
   \<and> fallback =
        \<lparr>isValid = False, budgetVerdict = JStr ''Insufficient'',
         issues = JArr [JStr ''Service unavailable or parse error''], suggestions = JArr []\<rparr>"
  using checkProjectFeasibility_total [of create parse prompt]
    checkProjectFeasibility_provider_failure [of create prompt _ parse]
    retry_first_failure [of create "feasibility_request prompt" e]
    retry_all_rate_limited [of create "feasibility_request prompt"]
    checkProjectFeasibility_parse_failure [of create prompt response parse e]
    checkProjectFeasibility_null [of create prompt response parse]
  by (auto simp: fallback_def)


lemma sample_evaluations:
  "cleanJson ''Sorry, no estimate'' = ''Sorry, no estimate''"
  "cleanJson ''{}'' = ''{}''"
  "cleanJson ''null'' = ''null''"
  "cleanJson ''{\"budgetVerdict\":\"Maybe\"}'' = ''{\"budgetVerdict\":\"Maybe\"}''"
  "cleanJson ''{\"isValid\":true,\"budgetVerdict\":\"Realistic\"}'' =
     ''{\"isValid\":true,\"budgetVerdict\":\"Realistic\"}''"
  by (rule cleanJson_no_fence, simp add: fence_def)+

lemma first_content_answer_with [simp]: "first_content (answer_with s) = Some s"
  by (simp add: first_content_def answer_with_def)

theorem checkProjectFeasibility_never_fails_witness:
  "(\<exists>r. checkProjectFeasibility unavailable parse_sample ''prompt'' = Inr r)
   \<and> (result (create_with_retry unavailable (feasibility_request ''prompt'')) = Inl unavailable_error
      \<and> unavailable 0 (feasibility_request ''prompt'') = Inl unavailable_error
      \<and> \<not> isRateLimit unavailable_error
      \<and> checkProjectFeasibility unavailable parse_sample ''prompt'' = Inr fallback)
   \<and> (rate_limited_upto (attempts throttled (feasibility_request ''prompt'')) 6
      \<and> checkProjectFeasibility throttled parse_sample ''prompt'' = Inr fallback)
   \<and> (result (create_with_retry (answers ''Sorry, no estimate'') (feasibility_request ''prompt'')) =
        Inr (answer_with ''Sorry, no estimate'')
      \<and> parse_sample (cleanJson (or_default (first_content (answer_with ''Sorry, no estimate'')) ''{}'')) =
        Inl (SyntaxError ''Unexpected token'')
      \<and> checkProjectFeasibility (answers ''Sorry, no estimate'') parse_sample ''prompt'' = Inr fallback)
   \<and> (result (create_with_retry (answers ''null'') (feasibility_request ''prompt'')) =
        Inr (answer_with ''null'')
      \<and> parse_sample (cleanJson (or_default (first_content (answer_with ''null'')) ''{}'')) = Inr JNull
      \<and> checkProjectFeasibility (answers ''null'') parse_sample ''prompt'' = Inr fallback)"
proof -
  have u0: "unavailable 0 (feasibility_request ''prompt'') = Inl unavailable_error"
    by (simp add: unavailable_def)
  have u1: "\<not> isRateLimit unavailable_error"
    by (simp add: unavailable_error_def)
  have u2: "result (create_with_retry unavailable (feasibility_request ''prompt'')) = Inl unavailable_error"
    using u0 u1 by (rule retry_first_failure)
  have t: "rate_limited_upto (attempts throttled (feasibility_request ''prompt'')) 6"
    by (simp add: numeral_eq_Suc attempts_def throttled_def rate_limit_error_def)
  have s1: "result (create_with_retry (answers ''Sorry, no estimate'') (feasibility_request ''prompt'')) =
        Inr (answer_with ''Sorry, no estimate'')"
    by (rule retry_first_success) (simp add: answers_def)
  have s2: "parse_sample (cleanJson (or_default (first_content (answer_with ''Sorry, no estimate'')) ''{}'')) =
        Inl (SyntaxError ''Unexpected token'')"
    by (simp add: or_default_def sample_evaluations parse_sample_def)
  have n1: "result (create_with_retry (answers ''null'') (feasibility_request ''prompt'')) =
        Inr (answer_with ''null'')"
    by (rule retry_first_success) (simp add: answers_def)
  have n2: "parse_sample (cleanJson (or_default (first_content (answer_with ''null'')) ''{}'')) = Inr JNull"
    by (simp add: or_default_def sample_evaluations parse_sample_def)
  note nf = checkProjectFeasibility_never_fails
  from nf [of unavailable parse_sample "''prompt''" unavailable_error] u0 u1
  have a: "checkProjectFeasibility unavailable parse_sample ''prompt'' = Inr fallback" by blast
  from nf [of throttled parse_sample "''prompt''"] t
  have b: "checkProjectFeasibility throttled parse_sample ''prompt'' = Inr fallback" by blast
  from nf [of "answers ''Sorry, no estimate''" parse_sample "''prompt''"
      "SyntaxError ''Unexpected token''" "answer_with ''Sorry, no estimate''"] s1 s2
  have c: "checkProjectFeasibility (answers ''Sorry, no estimate'') parse_sample ''prompt'' = Inr fallback"
    by blast
  from nf [of "answers ''null''" parse_sample "''prompt''" _ "answer_with ''null''"] n1 n2
  have d: "checkProjectFeasibility (answers ''null'') parse_sample ''prompt'' = Inr fallback"
    by blast
  from a u0 u1 u2 t b s1 s2 c n1 n2 d show ?thesis by blast
qed


lemma get_prop_fails_once:
  "get_prop data k = Inl e \<Longrightarrow> \<exists>e'. get_prop data k' = Inl e'"
  by (cases data) simp_all

lemma feasibility_of_verdict:
  assumes "get_prop data ''budgetVerdict'' = Inr v"
  shows "\<exists>r. feasibility_of data = Inr r \<and> budgetVerdict r = js_or v (JStr ''Insufficient'')"
proof -
  from assms have "\<And>k. \<exists>w. get_prop data k = Inr w"
    by (cases data) simp_all
  then obtain a b c where "get_prop data ''isValid'' = Inr a"
    "get_prop data ''issues'' = Inr b" "get_prop data ''suggestions'' = Inr c"
    by metis
  with assms show ?thesis
    by (simp add: feasibility_of_def)
qed

lemma checkProjectFeasibility_verdict:
  assumes "parsed_reply create parse (feasibility_request prompt) = Inr data"
    and "get_prop data ''budgetVerdict'' = Inr v"
  shows "\<exists>r. checkProjectFeasibility create parse prompt = Inr r \<and>
             budgetVerdict r = (if truthy v then v else JStr ''Insufficient'')"
  using feasibility_of_verdict [OF assms(2)] assms(1)
  by (auto simp: checkProjectFeasibility_def feasibility_try_def js_or_def)

lemma checkProjectFeasibility_verdict_cases:
  "\<exists>r. checkProjectFeasibility create parse prompt = Inr r \<and>
     (budgetVerdict r = JStr ''Insufficient'' \<or>
      (\<exists>data. parsed_reply create parse (feasibility_request prompt) = Inr data \<and>
         get_prop data ''budgetVerdict'' = Inr (budgetVerdict r) \<and> truthy (budgetVerdict r)))"
proof (cases "parsed_reply create parse (feasibility_request prompt)")
  case (Inl e)
  then show ?thesis
    by (simp add: checkProjectFeasibility_def feasibility_try_def fallback_def)
next
  case (Inr data)
  show ?thesis
  proof (cases "get_prop data ''budgetVerdict''")
    case (Inl e)
    then have "\<exists>e'. get_prop data ''isValid'' = Inl e'"
      by (rule get_prop_fails_once)
    with Inr show ?thesis
      by (auto simp: checkProjectFeasibility_def feasibility_try_def feasibility_of_def
          fallback_def)
  next
    case (Inr v)
    from checkProjectFeasibility_verdict [OF \<open>parsed_reply create parse (feasibility_request prompt) = Inr data\<close> Inr]
    obtain r where r: "checkProjectFeasibility create parse prompt = Inr r"
      "budgetVerdict r = (if truthy v then v else JStr ''Insufficient'')" by blast
    show ?thesis
    proof (cases "truthy v")
      case True
      with r Inr \<open>parsed_reply create parse (feasibility_request prompt) = Inr data\<close>
      show ?thesis by auto
    next
      case False
      with r show ?thesis by auto
    qed
  qed
qed

text \<open>
  Claim C8, as amended. The \<^verbatim>\<open>budgetVerdict\<close> of the result is the \<^verbatim>\<open>budgetVerdict\<close> property of
  the parsed reply whenever that value is truthy, whatever the value is, and \<^verbatim>\<open>Insufficient\<close>
  otherwise (the value is falsy or absent, or the call has failed and the fallback object is
  returned). So it belongs to the enumeration Realistic, Insufficient, Excessive whenever
  the value of the reply does, or is falsy or absent.
\<close>

theorem checkProjectFeasibility_budgetVerdict:
  "(parsed_reply create parse (feasibility_request prompt) = Inr data \<and>
      get_prop data ''budgetVerdict'' = Inr v \<longrightarrow>
      (\<exists>r. checkProjectFeasibility create parse prompt = Inr r \<and>
           budgetVerdict r = (if truthy v then v else JStr ''Insufficient'')))
   \<and> (parsed_reply create parse (feasibility_request prompt) = Inr data \<and>
      get_prop data ''budgetVerdict'' = Inr v \<and> (v \<in> verdicts \<or> \<not> truthy v) \<longrightarrow>
      (\<exists>r. checkProjectFeasibility create parse prompt = Inr r \<and> budgetVerdict r \<in> verdicts))
   \<and> (\<exists>r. checkProjectFeasibility create parse prompt = Inr r \<and>
        (budgetVerdict r = JStr ''Insufficient'' \<or>
         (\<exists>data. parsed_reply create parse (feasibility_request prompt) = Inr data \<and>
            get_prop data ''budgetVerdict'' = Inr (budgetVerdict r) \<and> truthy (budgetVerdict r))))"
proof -
  have 1: "parsed_reply create parse (feasibility_request prompt) = Inr data \<and>
      get_prop data ''budgetVerdict'' = Inr v \<longrightarrow>
      (\<exists>r. checkProjectFeasibility create parse prompt = Inr r \<and>
           budgetVerdict r = (if truthy v then v else JStr ''Insufficient''))"
    using checkProjectFeasibility_verdict [of create parse prompt data v] by blast
  have "JStr ''Insufficient'' \<in> verdicts" by (simp add: verdicts_def)
  with 1 have 2: "parsed_reply create parse (feasibility_request prompt) = Inr data \<and>
      get_prop data ''budgetVerdict'' = Inr v \<and> (v \<in> verdicts \<or> \<not> truthy v) \<longrightarrow>
      (\<exists>r. checkProjectFeasibility create parse prompt = Inr r \<and> budgetVerdict r \<in> verdicts)"
    by (cases "truthy v") auto
  from 1 2 checkProjectFeasibility_verdict_cases [of create parse prompt] show ?thesis
    by blast
qed

lemma parsed_reply_answers:
  "s \<noteq> [] \<Longrightarrow> parsed_reply (answers s) parse req = parse (cleanJson s)"
  using retry_first_success [of "answers s" req "answer_with s"]
  by (simp add: parsed_reply_def answers_def or_default_def)

theorem checkProjectFeasibility_budgetVerdict_witness:
  "parsed_reply (answers ''{\"isValid\":true,\"budgetVerdict\":\"Realistic\"}'') parse_sample
       (feasibility_request ''prompt'') =
     Inr (JObj [(''isValid'', JBool True), (''budgetVerdict'', JStr ''Realistic'')])
   \<and> get_prop (JObj [(''isValid'', JBool True), (''budgetVerdict'', JStr ''Realistic'')])
       ''budgetVerdict'' = Inr (JStr ''Realistic'')
   \<and> JStr ''Realistic'' \<in> verdicts
   \<and> (\<exists>r. checkProjectFeasibility (answers ''{\"isValid\":true,\"budgetVerdict\":\"Realistic\"}'')
           parse_sample ''prompt'' = Inr r \<and> budgetVerdict r = JStr ''Realistic'')
   \<and> (\<exists>r. checkProjectFeasibility (answers ''{\"isValid\":true,\"budgetVerdict\":\"Realistic\"}'')
           parse_sample ''prompt'' = Inr r \<and> budgetVerdict r \<in> verdicts)"
proof -
  have p: "parsed_reply (answers ''{\"isValid\":true,\"budgetVerdict\":\"Realistic\"}'') parse_sample
       (feasibility_request ''prompt'') =
     Inr (JObj [(''isValid'', JBool True), (''budgetVerdict'', JStr ''Realistic'')])"
    by (simp add: parsed_reply_answers sample_evaluations parse_sample_def)
  have g: "get_prop (JObj [(''isValid'', JBool True), (''budgetVerdict'', JStr ''Realistic'')])
       ''budgetVerdict'' = Inr (JStr ''Realistic'')"
    by simp
  have v: "JStr ''Realistic'' \<in> verdicts" by (simp add: verdicts_def)
  from checkProjectFeasibility_budgetVerdict
    [of "answers ''{\"isValid\":true,\"budgetVerdict\":\"Realistic\"}''" parse_sample "''prompt''"
        "JObj [(''isValid'', JBool True), (''budgetVerdict'', JStr ''Realistic'')]" "JStr ''Realistic''"]
    p g v
  show ?thesis by simp
qed

text \<open>
  Claim C8 as stated fails: for the reply \<^verbatim>\<open>{"budgetVerdict":"Maybe"}\<close> the result has the
  \<^verbatim>\<open>budgetVerdict\<close> \<^verbatim>\<open>Maybe\<close>, which is not in the enumeration.
\<close>

theorem checkProjectFeasibility_budgetVerdict_counterexample:
  "checkProjectFeasibility (answers ''{\"budgetVerdict\":\"Maybe\"}'') parse_sample ''prompt'' =
     Inr \<lparr>isValid = False, budgetVerdict = JStr ''Maybe'', issues = JArr [], suggestions = JArr []\<rparr>
   \<and> JStr ''Maybe'' \<notin> verdicts"
  by (simp add: checkProjectFeasibility_def feasibility_try_def parsed_reply_answers
      sample_evaluations parse_sample_def feasibility_of_def js_or_def verdicts_def)


text \<open>
  Claim C5, as amended. \<^verbatim>\<open>generateConstructionEstimate\<close> propagates every error that
  \<^verbatim>\<open>retryWithBackoff\<close> propagates (in particular an error that is not a rate limit, at the first
  request) and every error of \<^verbatim>\<open>JSON.parse\<close>, unchanged. A reply that parses is returned as it
  is parsed, with no check of its fields; a response without content, or with the empty
  string as content, is read as \<^verbatim>\<open>{}\<close>.
\<close>

theorem generateConstructionEstimate_propagation:
  "(result (create_with_retry create (estimate_request prompt)) = Inl e \<longrightarrow>
      generateConstructionEstimate create parse prompt = Inl e)
   \<and> (create 0 (estimate_request prompt) = Inl e \<and> \<not> isRateLimit e \<longrightarrow>
      generateConstructionEstimate create parse prompt = Inl e)
   \<and> (result (create_with_retry create (estimate_request prompt)) = Inr response \<longrightarrow>
      generateConstructionEstimate create parse prompt =
        parse (cleanJson (or_default (first_content response) ''{}'')))
   \<and> (result (create_with_retry create (estimate_request prompt)) = Inr response \<and>
      (first_content response = None \<or> first_content response = Some []) \<longrightarrow>
      generateConstructionEstimate create parse prompt = parse ''{}'')"
proof -
  have "cleanJson ''{}'' = ''{}''" by (rule sample_evaluations)
  then show ?thesis
    using retry_first_failure [of create "estimate_request prompt" e]
    by (auto simp: generateConstructionEstimate_def parsed_reply_def or_default_def
        split: sum.splits)
qed

theorem generateConstructionEstimate_propagation_witness:
  "(result (create_with_retry unavailable (estimate_request ''prompt'')) = Inl unavailable_error
      \<and> unavailable 0 (estimate_request ''prompt'') = Inl unavailable_error
      \<and> \<not> isRateLimit unavailable_error
      \<and> generateConstructionEstimate unavailable parse_sample ''prompt'' = Inl unavailable_error)
   \<and> (result (create_with_retry (answers ''Sorry, no estimate'') (estimate_request ''prompt'')) =
        Inr (answer_with ''Sorry, no estimate'')
      \<and> generateConstructionEstimate (answers ''Sorry, no estimate'') parse_sample ''prompt'' =
        Inl (SyntaxError ''Unexpected token''))
   \<and> (result (create_with_retry no_choices (estimate_request ''prompt'')) = Inr (Response None)
      \<and> first_content (Response None) = None
      \<and> generateConstructionEstimate no_choices parse_sample ''prompt'' = Inr (JObj []))"
proof -
  have u0: "unavailable 0 (estimate_request ''prompt'') = Inl unavailable_error"
    by (simp add: unavailable_def)
  have u1: "\<not> isRateLimit unavailable_error"
    by (simp add: unavailable_error_def)
  have u2: "result (create_with_retry unavailable (estimate_request ''prompt'')) = Inl unavailable_error"
    using u0 u1 by (rule retry_first_failure)
  have s1: "result (create_with_retry (answers ''Sorry, no estimate'') (estimate_request ''prompt'')) =
        Inr (answer_with ''Sorry, no estimate'')"
    by (rule retry_first_success) (simp add: answers_def)
  have n1: "result (create_with_retry no_choices (estimate_request ''prompt'')) = Inr (Response None)"
    by (rule retry_first_success) (simp add: no_choices_def)
  have n2: "first_content (Response None) = None"
    by (simp add: first_content_def)
  note gp = generateConstructionEstimate_propagation
  from gp [of unavailable "''prompt''" unavailable_error parse_sample] u0 u1
  have a: "generateConstructionEstimate unavailable parse_sample ''prompt'' = Inl unavailable_error"
    by blast
  from gp [of "answers ''Sorry, no estimate''" "''prompt''" _ parse_sample
      "answer_with ''Sorry, no estimate''"] s1
  have b: "generateConstructionEstimate (answers ''Sorry, no estimate'') parse_sample ''prompt'' =
        Inl (SyntaxError ''Unexpected token'')"
    by (simp add: or_default_def sample_evaluations parse_sample_def)
  from gp [of no_choices "''prompt''" _ parse_sample "Response None"] n1 n2
  have c: "generateConstructionEstimate no_choices parse_sample ''prompt'' = Inr (JObj [])"
    by (simp add: parse_sample_def or_default_def sample_evaluations)
  from u0 u1 u2 a s1 b n1 n2 c show ?thesis by blast
qed

text \<open>
  Claim C5 as stated fails: the reply \<^verbatim>\<open>{}\<close>, in which every field is missing, is returned as
  the result and not propagated as a failure, and a response without choices is turned into
  the substitute result \<^verbatim>\<open>{}\<close>.
\<close>

theorem generateConstructionEstimate_missing_fields_counterexample:
  "generateConstructionEstimate (answers ''{}'') parse_sample ''prompt'' = Inr (JObj [])
   \<and> generateConstructionEstimate no_choices parse_sample ''prompt'' = Inr (JObj [])"
proof -
  have "result (create_with_retry no_choices (estimate_request ''prompt'')) = Inr (Response None)"
    by (rule retry_first_success) (simp add: no_choices_def)
  then have "generateConstructionEstimate no_choices parse_sample ''prompt'' = Inr (JObj [])"
    by (simp add: generateConstructionEstimate_def parsed_reply_def first_content_def
        or_default_def sample_evaluations parse_sample_def)
  moreover have "generateConstructionEstimate (answers ''{}'') parse_sample ''prompt'' = Inr (JObj [])"
    by (simp add: generateConstructionEstimate_def parsed_reply_answers sample_evaluations
        parse_sample_def)
  ultimately show ?thesis by simp
qed

lemma convert_history_ok:
  "\<forall>h \<in> set history. parts h \<noteq> [] \<Longrightarrow>
   convert_history history =
     Inr (map (\<lambda>h. ChatMessage (if role h = ''model'' then ''assistant'' else ''user'')
                  (text' (hd (parts h)))) history)"
  by (induction history) (auto simp: convert_entry_def split: list.splits)

lemma convert_history_fails:
  "\<exists>h \<in> set history. parts h = [] \<Longrightarrow>
   convert_history history = Inl (TypeError ''Cannot read properties of undefined'')"
proof (induction history)
  case Nil
  then show ?case by simp
next
  case (Cons h hs)
  show ?case
  proof (cases "parts h")
    case Nil
    then show ?thesis by (simp add: convert_entry_def)
  next
    case (Cons p ps)
    with Cons.prems have "\<exists>h \<in> set hs. parts h = []" by auto
    from Cons.IH [OF this] Cons show ?thesis by (simp add: convert_entry_def)
  qed
qed

lemma convert_history_length:
  "convert_history history = Inr ms \<Longrightarrow> length ms = length history"
  by (induction history arbitrary: ms) (auto split: sum.splits)

text \<open>
  Claim C6, as amended. \<^verbatim>\<open>sendChatMessage\<close> calls the endpoint directly, once: it sends at most
  one request; an error of that request, rate limit or not, is propagated at once, with no
  retry; and the content of the first choice is returned as it is (or the empty string when
  it is absent), without passing through \<open>cleanJson\<close>.
\<close>

theorem sendChatMessage_direct:
  "(convert_history history = Inr ms \<and>
      create 0 (chat_request (ms @ [ChatMessage ''user'' message'])) = Inl e \<longrightarrow>
      sendChatMessage create history message' =
        \<lparr>answer = Inl e, requests = [chat_request (ms @ [ChatMessage ''user'' message'])]\<rparr>)
   \<and> (convert_history history = Inr ms \<and>
      create 0 (chat_request (ms @ [ChatMessage ''user'' message'])) = Inr response \<longrightarrow>
      sendChatMessage create history message' =
        \<lparr>answer = Inr (or_default (first_content response) []),
         requests = [chat_request (ms @ [ChatMessage ''user'' message'])]\<rparr>)
   \<and> length (requests (sendChatMessage create history message')) \<le> 1"
  by (auto simp: sendChatMessage_def Let_def split: sum.splits)

theorem sendChatMessage_direct_witness:
  "(convert_history [] = Inr []
      \<and> rate_limited_once 0 (chat_request ([] @ [ChatMessage ''user'' ''Hi''])) = Inl rate_limit_error
      \<and> sendChatMessage rate_limited_once [] ''Hi'' =
        \<lparr>answer = Inl rate_limit_error,
         requests = [chat_request ([] @ [ChatMessage ''user'' ''Hi''])]\<rparr>)
   \<and> (answers ''```{}```'' 0 (chat_request ([] @ [ChatMessage ''user'' ''Hi''])) =
        Inr (answer_with ''```{}```'')
      \<and> sendChatMessage (answers ''```{}```'') [] ''Hi'' =
        \<lparr>answer = Inr ''```{}```'',
         requests = [chat_request ([] @ [ChatMessage ''user'' ''Hi''])]\<rparr>)"
proof -
  have c: "convert_history [] = Inr []" by simp
  have r: "rate_limited_once 0 (chat_request ([] @ [ChatMessage ''user'' ''Hi''])) = Inl rate_limit_error"
    by (simp add: rate_limited_once_def)
  have a: "answers ''```{}```'' 0 (chat_request ([] @ [ChatMessage ''user'' ''Hi''])) =
        Inr (answer_with ''```{}```'')"
    by (simp add: answers_def)
  from sendChatMessage_direct [of "[]" "[]" rate_limited_once "''Hi''" rate_limit_error] c r
  have 1: "sendChatMessage rate_limited_once [] ''Hi'' =
        \<lparr>answer = Inl rate_limit_error,
         requests = [chat_request ([] @ [ChatMessage ''user'' ''Hi''])]\<rparr>"
    by blast
  from sendChatMessage_direct [of "[]" "[]" "answers ''```{}```''" "''Hi''" _ "answer_with ''```{}```''"] c a
  have 2: "sendChatMessage (answers ''```{}```'') [] ''Hi'' =
        \<lparr>answer = Inr ''```{}```'',
         requests = [chat_request ([] @ [ChatMessage ''user'' ''Hi''])]\<rparr>"
    by (simp add: or_default_def)
  from c r a 1 2 show ?thesis by blast
qed

text \<open>
  Claim C6 as stated fails: with a provider that rejects the first request as rate limited
  and answers the second, \<^verbatim>\<open>sendChatMessage\<close> fails after one request, where the same
  request sent through \<^verbatim>\<open>retryWithBackoff\<close> is answered; and a fenced reply is returned
  with its fences, where \<open>cleanJson\<close> removes them.
\<close>

theorem sendChatMessage_no_retry_counterexample:
  "isRateLimit rate_limit_error
   \<and> answer (sendChatMessage rate_limited_once [] ''Hi'') = Inl rate_limit_error
   \<and> length (requests (sendChatMessage rate_limited_once [] ''Hi'')) = 1
   \<and> result (create_with_retry rate_limited_once (chat_request [ChatMessage ''user'' ''Hi''])) =
       Inr (answer_with ''Hello'')
   \<and> answer (sendChatMessage (answers ''```{}```'') [] ''Hi'') = Inr ''```{}```''
   \<and> cleanJson ''```{}```'' = ''{}''"
proof -
  have "result (create_with_retry rate_limited_once (chat_request [ChatMessage ''user'' ''Hi''])) =
       Inr (answer_with ''Hello'')"
    using retryWithBackoff_success
      [of 1 5 "attempts rate_limited_once (chat_request [ChatMessage ''user'' ''Hi''])"
          "answer_with ''Hello''" 2000]
    by (simp add: create_with_retry_def retryWithBackoff_default_def attempts_def
        rate_limited_once_def rate_limit_error_def)
  moreover have "cleanJson ''```{}```'' = ''{}''"
    by (simp add: cleanJson_def open_json_def close_json_def fence_def match_at_def)
  ultimately show ?thesis
    by (simp add: sendChatMessage_def rate_limited_once_def rate_limit_error_def answers_def
        or_default_def)
qed


text \<open>
  Claim C7, as amended. For every history of \<open>n\<close> turns in which every entry has at least
  one part, and one new message, \<^verbatim>\<open>sendChatMessage\<close> sends one request with exactly \<open>n + 1\<close>
  messages, in order: each entry with the role \<^verbatim>\<open>model\<close> translated to \<^verbatim>\<open>assistant\<close> and every
  other role to \<^verbatim>\<open>user\<close>, and the text of its first part; the new message last, with the role
  \<^verbatim>\<open>user\<close>. When the request is answered, the call returns the content of the first choice,
  or the empty string when it is absent; when it is rejected, the error.
\<close>

theorem sendChatMessage_messages:
  assumes "\<forall>h \<in> set history. parts h \<noteq> []"
  shows "let ms = map (\<lambda>h. ChatMessage (if role h = ''model'' then ''assistant'' else ''user'')
                         (text' (hd (parts h)))) history
                  @ [ChatMessage ''user'' message']
         in requests (sendChatMessage create history message') = [chat_request ms]
          \<and> messages (chat_request ms) = ms
          \<and> length ms = length history + 1
          \<and> answer (sendChatMessage create history message') =
              (case create 0 (chat_request ms) of
                 Inl e \<Rightarrow> Inl e
               | Inr response \<Rightarrow> Inr (or_default (first_content response) []))"
  using convert_history_ok [OF assms]
  by (simp add: sendChatMessage_def Let_def chat_request_def split: sum.splits)

theorem sendChatMessage_messages_witness:
  "[] \<notin> set (map parts two_turns)
   \<and> requests (sendChatMessage (answers ''Hello'') two_turns ''And for 2000 sq ft?'') =
       [chat_request
          [ChatMessage ''user'' ''How much for 1200 sq ft?'',
           ChatMessage ''assistant'' ''About 90000.'',
           ChatMessage ''user'' ''And for 2000 sq ft?'']]
   \<and> answer (sendChatMessage (answers ''Hello'') two_turns ''And for 2000 sq ft?'') = Inr ''Hello''"
proof -
  have h: "\<forall>h \<in> set two_turns. parts h \<noteq> []"
    by (simp add: two_turns_def)
  have m: "map (\<lambda>h. ChatMessage (if role h = ''model'' then ''assistant'' else ''user'')
                  (text' (hd (parts h)))) two_turns
           @ [ChatMessage ''user'' ''And for 2000 sq ft?''] =
          [ChatMessage ''user'' ''How much for 1200 sq ft?'',
           ChatMessage ''assistant'' ''About 90000.'',
           ChatMessage ''user'' ''And for 2000 sq ft?'']"
    by (simp add: two_turns_def)
  have h': "[] \<notin> set (map parts two_turns)"
    by (simp add: two_turns_def)
  from sendChatMessage_messages
    [OF h, where create = "answers ''Hello''" and message' = "''And for 2000 sq ft?''"]
  show ?thesis
    unfolding Let_def m using h' by (simp add: answers_def or_default_def)
qed

text \<open>
  Claim C7 as stated fails on a history with an entry without parts: for two turns and one
  new message no message is supplied to the endpoint, since the call fails before it sends
  a request.
\<close>

theorem sendChatMessage_empty_parts_counterexample:
  "length empty_parts = 2
   \<and> sendChatMessage (answers ''Hello'') empty_parts ''And then?'' =
       \<lparr>answer = Inl (TypeError ''Cannot read properties of undefined''), requests = []\<rparr>"
  by (simp add: sendChatMessage_def empty_parts_def convert_entry_def)

text \<open>
  Claim C10. \<^verbatim>\<open>sendChatMessage\<close> reads the first part of each history entry without a guard.
  When every entry has at least one part, the conversion of the history succeeds, with one
  message per entry, and one request is sent. When some entry has no part, the call fails
  and no request has been sent.
\<close>

theorem sendChatMessage_parts_access:
  "((\<forall>h \<in> set history. parts h \<noteq> []) \<longrightarrow>
      convert_history history =
        Inr (map (\<lambda>h. ChatMessage (if role h = ''model'' then ''assistant'' else ''user'')
                     (text' (hd (parts h)))) history)
      \<and> length (requests (sendChatMessage create history message')) = 1)
   \<and> ((\<exists>h \<in> set history. parts h = []) \<longrightarrow>
      (\<exists>e. answer (sendChatMessage create history message') = Inl e)
      \<and> requests (sendChatMessage create history message') = [])"
proof -
  have "(\<forall>h \<in> set history. parts h \<noteq> []) \<longrightarrow>
      convert_history history =
        Inr (map (\<lambda>h. ChatMessage (if role h = ''model'' then ''assistant'' else ''user'')
                     (text' (hd (parts h)))) history)
      \<and> length (requests (sendChatMessage create history message')) = 1"
    using convert_history_ok [of history]
    by (auto simp: sendChatMessage_def Let_def split: sum.splits)
  moreover have "(\<exists>h \<in> set history. parts h = []) \<longrightarrow>
      (\<exists>e. answer (sendChatMessage create history message') = Inl e)
      \<and> requests (sendChatMessage create history message') = []"
    using convert_history_fails [of history]
    by (auto simp: sendChatMessage_def)
  ultimately show ?thesis by blast
qed

theorem sendChatMessage_parts_access_witness:
  "([] \<notin> set (map parts two_turns)
      \<and> convert_history two_turns =
          Inr [ChatMessage ''user'' ''How much for 1200 sq ft?'',
               ChatMessage ''assistant'' ''About 90000.'']
      \<and> length (requests (sendChatMessage unavailable two_turns ''Hi'')) = 1)
   \<and> ([] \<in> set (map parts empty_parts)
      \<and> (\<exists>e. answer (sendChatMessage unavailable empty_parts ''Hi'') = Inl e)
      \<and> requests (sendChatMessage unavailable empty_parts ''Hi'') = [])"
proof -
  have a: "\<forall>h \<in> set two_turns. parts h \<noteq> []"
    by (simp add: two_turns_def)
  have b: "\<exists>h \<in> set empty_parts. parts h = []"
    by (simp add: empty_parts_def)
  from sendChatMessage_parts_access [of two_turns unavailable "''Hi''"] a
  have 1: "convert_history two_turns =
          Inr [ChatMessage ''user'' ''How much for 1200 sq ft?'',
               ChatMessage ''assistant'' ''About 90000.'']
      \<and> length (requests (sendChatMessage unavailable two_turns ''Hi'')) = 1"
    by (simp add: two_turns_def)
  from sendChatMessage_parts_access [of empty_parts unavailable "''Hi''"] b
  have 2: "(\<exists>e. answer (sendChatMessage unavailable empty_parts ''Hi'') = Inl e)
      \<and> requests (sendChatMessage unavailable empty_parts ''Hi'') = []"
    by blast
  have a': "[] \<notin> set (map parts two_turns)"
    by (simp add: two_turns_def)
  have b': "[] \<in> set (map parts empty_parts)"
    by (simp add: empty_parts_def)
  from a' b' 1 2 show ?thesis by blast
qed

end
